theory Spec2Isabelle
  imports Main "HOL-Library.Word"
begin

section \<open>Strings and errors\<close>

text \<open>
  JavaScript strings are modelled as \<^typ>\<open>string\<close>, lists of characters with the
  codes 0 to 255. The regular expressions of the code only tell apart ASCII classes
  (control characters, letters, digits, the space, the dot, the slash, the backslash,
  hyphen and underscore) and treat every code unit above \<^verbatim>\<open>0x7F\<close> alike, as the model
  does. The functions take strings: the tests \<^verbatim>\<open>typeof x !== 'string'\<close> of the source
  are false of every argument of the model, and \<^verbatim>\<open>!x\<close> is true of the empty string
  only. A \<^verbatim>\<open>null\<close> result is \<open>None\<close>. A thrown \<^verbatim>\<open>Error\<close> is a value carrying its
  message and, where the source sets one, its \<^verbatim>\<open>statusCode\<close>. The calls to the logger
  change nothing a caller or a collaborator can see and are left out.
\<close>

datatype error = Error string "nat option"

text \<open>\<^verbatim>\<open>s.startsWith(p)\<close>\<close>

fun startsWith :: "string \<Rightarrow> string \<Rightarrow> bool" where
  "startsWith s [] = True"
| "startsWith [] (p # ps) = False"
| "startsWith (c # cs) (p # ps) = (c = p \<and> startsWith cs ps)"

text \<open>\<^verbatim>\<open>s.includes(p)\<close>\<close>

fun str_includes :: "string \<Rightarrow> string \<Rightarrow> bool" where
  "str_includes [] p = (p = [])"
| "str_includes (c # cs) p = (startsWith (c # cs) p \<or> str_includes cs p)"

text \<open>
  \<^verbatim>\<open>s.replace(/p/g, '')\<close> for a pattern \<open>p\<close> that is a literal, non-empty sequence of
  characters: the scan runs left to right, a match is dropped and the scan resumes behind
  it, so matches never overlap and the result is not scanned again.
\<close>

function js_remove_all :: "string \<Rightarrow> string \<Rightarrow> string" where
  "js_remove_all p [] = []"
| "js_remove_all p (c # cs) =
     (if p \<noteq> [] \<and> startsWith (c # cs) p
      then js_remove_all p (drop (length p) (c # cs))
      else c # js_remove_all p cs)"
  by pat_completeness auto
termination
  by (relation "measure (\<lambda>(p, s). length s)") auto

text \<open>\<^verbatim>\<open>s.split(d)\<close> for a one-character separator; \<^verbatim>\<open>"".split("/")\<close> is \<^verbatim>\<open>[""]\<close>.\<close>

fun split_on :: "char \<Rightarrow> string \<Rightarrow> string list" where
  "split_on d [] = [[]]"
| "split_on d (c # cs) =
     (if c = d then [] # split_on d cs
      else (case split_on d cs of [] \<Rightarrow> [[c]] | p # ps \<Rightarrow> (c # p) # ps))"

text \<open>The character classes of the source's regular expressions.\<close>

definition is_control :: "char \<Rightarrow> bool" where
  \<comment> \<open>\<^verbatim>\<open>[\0-\x1F\x7F]\<close>\<close>
  "is_control c \<longleftrightarrow> (of_char c :: nat) \<le> 31 \<or> (of_char c :: nat) = 127"

definition is_alnum :: "char \<Rightarrow> bool" where
  \<comment> \<open>\<^verbatim>\<open>[a-zA-Z0-9]\<close>\<close>
  "is_alnum c \<longleftrightarrow>
     (97 \<le> (of_char c :: nat) \<and> (of_char c :: nat) \<le> 122) \<or>
     (65 \<le> (of_char c :: nat) \<and> (of_char c :: nat) \<le> 90) \<or>
     (48 \<le> (of_char c :: nat) \<and> (of_char c :: nat) \<le> 57)"

definition is_id_char :: "char \<Rightarrow> bool" where
  \<comment> \<open>\<^verbatim>\<open>[a-zA-Z0-9_-]\<close>\<close>
  "is_id_char c \<longleftrightarrow> is_alnum c \<or> c = CHR ''_'' \<or> c = CHR ''-''"

abbreviation bslash :: char where
  "bslash \<equiv> CHR 0x5C"

section \<open>The tenant isolation guard (utils/s3-guard.js)\<close>

definition sanitizeS3Key :: "string \<Rightarrow> string option" where
  "sanitizeS3Key s3Key =
     (if s3Key = [] then None
      else
        let sanitized = filter (\<lambda>c. \<not> is_control c) s3Key;
            sanitized = js_remove_all [CHR ''.'', CHR ''.'', CHR ''/''] sanitized;
            sanitized = js_remove_all [CHR ''.'', CHR ''.'', bslash] sanitized;
            sanitized = js_remove_all [CHR ''/'', CHR ''.'', CHR ''.''] sanitized;
            sanitized = js_remove_all [bslash, CHR ''.'', CHR ''.''] sanitized
        in Some sanitized)"

definition sanitizeTenantId :: "string \<Rightarrow> string option" where
  "sanitizeTenantId tenantId =
     (if tenantId = [] then None
      else
        let sanitized = filter is_id_char tenantId
        in if length sanitized > 0 then Some sanitized else None)"

definition validateTenantOwnership :: "string \<Rightarrow> string \<Rightarrow> bool" where
  "validateTenantOwnership s3Key tenantId =
     (if s3Key = [] \<or> tenantId = [] then False
      else
        (case (sanitizeS3Key s3Key, sanitizeTenantId tenantId) of
           (Some sanitizedKey, Some sanitizedTenantId) \<Rightarrow>
             if sanitizedKey = [] \<or> sanitizedTenantId = [] then False
             else
               let expectedPrefix = ''tenants/'' @ sanitizedTenantId @ ''/''
               in if \<not> startsWith sanitizedKey expectedPrefix then False else True
         | _ \<Rightarrow> False))"

definition validateS3KeyStructure :: "string \<Rightarrow> bool" where
  "validateS3KeyStructure s3Key =
     (if s3Key = [] then False
      else
        let parts = split_on CHR ''/'' s3Key
        in if length parts < 4 then False
           else if parts ! 0 \<noteq> ''tenants'' then False
           else if parts ! 2 \<noteq> ''documents'' then False
           else True)"

definition validateS3Key :: "string \<Rightarrow> string \<Rightarrow> bool" where
  "validateS3Key s3Key tenantId \<longleftrightarrow>
     validateTenantOwnership s3Key tenantId \<and> validateS3KeyStructure s3Key"

text \<open>
  \<^verbatim>\<open>s3Key.match(/^tenants\/([^\/]+)\//)\<close>: the key starts with \<^verbatim>\<open>tenants/\<close>, then comes
  the longest run of characters other than the slash, which must be non-empty and must be
  followed by a slash; the run is the captured group.
\<close>

definition extractTenantId :: "string \<Rightarrow> string option" where
  "extractTenantId s3Key =
     (if s3Key = [] then None
      else if startsWith s3Key ''tenants/'' then
        let rest = drop 8 s3Key;
            seg = takeWhile (\<lambda>c. c \<noteq> CHR ''/'') rest;
            tail = dropWhile (\<lambda>c. c \<noteq> CHR ''/'') rest
        in if seg \<noteq> [] \<and> tail \<noteq> [] then Some seg else None
      else None)"

text \<open>
  The \<open>subfolder\<close> parameter has the default \<^verbatim>\<open>'raw'\<close>, taken when the argument is
  left out (\<open>None\<close>).
\<close>

definition generateSecureS3Key ::
  "string \<Rightarrow> string \<Rightarrow> string \<Rightarrow> string option \<Rightarrow> error + string" where
  "generateSecureS3Key tenantId documentId filename subfolder_arg =
     (let subfolder = (case subfolder_arg of None \<Rightarrow> ''raw'' | Some s \<Rightarrow> s);
          sanitizedTenantId = sanitizeTenantId tenantId;
          sanitizedDocumentId = sanitizeTenantId documentId;
          sanitizedFilename = sanitizeS3Key filename
      in case (sanitizedTenantId, sanitizedDocumentId, sanitizedFilename) of
           (Some t, Some d, Some f) \<Rightarrow>
             if f = [] then Inl (Error ''Invalid parameters for S3 key generation'' None)
             else Inr (''tenants/'' @ t @ ''/documents/'' @ subfolder @ ''/'' @ d @ ''/'' @ f)
         | _ \<Rightarrow> Inl (Error ''Invalid parameters for S3 key generation'' None))"

definition guardS3Access :: "string \<Rightarrow> string \<Rightarrow> string \<Rightarrow> error + unit" where
  "guardS3Access s3Key tenantId operation =
     (if \<not> validateS3Key s3Key tenantId
      then Inl (Error (''Unauthorized S3 access for tenant '' @ tenantId) (Some 403))
      else Inr ())"

definition validateMultipleS3Keys :: "string list \<Rightarrow> string \<Rightarrow> bool list" where
  "validateMultipleS3Keys s3Keys tenantId = map (\<lambda>key. validateS3Key key tenantId) s3Keys"

definition filterTenantS3Keys :: "string list \<Rightarrow> string \<Rightarrow> string list" where
  "filterTenantS3Keys s3Keys tenantId = filter (\<lambda>key. validateS3Key key tenantId) s3Keys"

text \<open>
  \<^verbatim>\<open>sanitizeS3Key(sanitizeS3Key(k))\<close>: the function answers \<^verbatim>\<open>null\<close> to \<^verbatim>\<open>null\<close>.
\<close>

definition sanitizeS3Key_twice :: "string \<Rightarrow> string option" where
  "sanitizeS3Key_twice k = (case sanitizeS3Key k of None \<Rightarrow> None | Some s \<Rightarrow> sanitizeS3Key s)"

text \<open>A string holds one of the four traversal sequences the sanitizer removes.\<close>

definition has_traversal :: "string \<Rightarrow> bool" where
  "has_traversal s \<longleftrightarrow>
     str_includes s [CHR ''.'', CHR ''.'', CHR ''/''] \<or>
     str_includes s [CHR ''.'', CHR ''.'', bslash] \<or>
     str_includes s [CHR ''/'', CHR ''.'', CHR ''.''] \<or>
     str_includes s [bslash, CHR ''.'', CHR ''.'']"


section \<open>Numbers and bytes as text\<close>

text \<open>
  Template literals print a non-negative integer in decimal, and
  \<^verbatim>\<open>buffer.toString('hex')\<close> prints every byte as two lower-case hexadecimal digits.
  The digit tables are only read at indices below ten and below sixteen.
\<close>

definition digit_char :: "nat \<Rightarrow> char" where
  "digit_char d = ''0123456789'' ! d"

function decimal :: "nat \<Rightarrow> string" where
  "decimal n = (if n < 10 then [digit_char n] else decimal (n div 10) @ [digit_char (n mod 10)])"
  by pat_completeness auto
termination
  by (relation "measure id") auto

declare decimal.simps [simp del]

definition hex_digit :: "nat \<Rightarrow> char" where
  "hex_digit d = ''0123456789abcdef'' ! d"

definition hex_byte :: "8 word \<Rightarrow> string" where
  "hex_byte b = [hex_digit (unat b div 16), hex_digit (unat b mod 16)]"

definition toString_hex :: "8 word list \<Rightarrow> string" where
  "toString_hex bytes = concat (map hex_byte bytes)"

section \<open>Unique file names (utils/file.js)\<close>

text \<open>
  \<^verbatim>\<open>path.extname\<close> and \<^verbatim>\<open>path.basename\<close> belong to the runtime, not to the repository:
  they are parameters of the model. \<^verbatim>\<open>Date.now()\<close> and \<^verbatim>\<open>crypto.randomBytes(8)\<close> are
  read once per call and are passed as the arguments \<open>now\<close> and \<open>random\<close>.
\<close>

record node_path =
  extname :: "string \<Rightarrow> string"
  basename :: "string \<Rightarrow> string \<Rightarrow> string"

definition generateUniqueFilename ::
  "node_path \<Rightarrow> nat \<Rightarrow> 8 word list \<Rightarrow> string \<Rightarrow> string" where
  "generateUniqueFilename path now random originalName =
     (let ext = extname path originalName;
          name = basename path originalName ext;
          timestamp = now;
          random_hex = toString_hex random
      in name @ ''-'' @ decimal timestamp @ ''-'' @ random_hex @ ext)"

section \<open>The upload service\<close>

text \<open>\<^verbatim>\<open>s.lastIndexOf(d)\<close>, with \<open>None\<close> for \<^verbatim>\<open>-1\<close>.\<close>

fun lastIndexOf :: "char \<Rightarrow> string \<Rightarrow> nat option" where
  "lastIndexOf d [] = None"
| "lastIndexOf d (c # cs) =
     (case lastIndexOf d cs of
        Some i \<Rightarrow> Some (Suc i)
      | None \<Rightarrow> if c = d then Some 0 else None)"

definition is_basename_char :: "char \<Rightarrow> bool" where
  \<comment> \<open>\<^verbatim>\<open>[a-zA-Z0-9 _-]\<close>\<close>
  "is_basename_char c \<longleftrightarrow> is_alnum c \<or> c = CHR '' '' \<or> c = CHR ''_'' \<or> c = CHR ''-''"

definition is_extension_char :: "char \<Rightarrow> bool" where
  \<comment> \<open>\<^verbatim>\<open>[a-zA-Z0-9.]\<close>\<close>
  "is_extension_char c \<longleftrightarrow> is_alnum c \<or> c = CHR ''.''"

definition sanitizeFilename :: "string \<Rightarrow> string option" where
  "sanitizeFilename filename0 =
     (if filename0 = [] then None
      else
        let filename = js_remove_all [CHR ''.'', CHR ''.'', CHR ''/''] filename0;
            filename = js_remove_all [CHR ''.'', CHR ''.'', bslash] filename;
            filename = js_remove_all [CHR ''/'', CHR ''.'', CHR ''.''] filename;
            filename = js_remove_all [bslash, CHR ''.'', CHR ''.''] filename;
            filename = filter (\<lambda>c. c \<noteq> CHR 0x00) filename;
            (baseName, extension) =
               (case lastIndexOf CHR ''.'' filename of
                  Some lastDotIndex \<Rightarrow>
                    if lastDotIndex > 0
                    then (take lastDotIndex filename, drop lastDotIndex filename)
                    else (filename, [])
                | None \<Rightarrow> (filename, []));
            baseName = map (\<lambda>c. if is_basename_char c then c else CHR ''_'') baseName;
            extension = filter is_extension_char extension
        in Some (baseName @ extension))"

text \<open>
  \<open>documentId\<close> has the default \<^verbatim>\<open>null\<close> (\<open>None\<close>); \<^verbatim>\<open>documentId || 'temp'\<close> also
  replaces the empty string.
\<close>

definition generateSecureObjectKey ::
  "node_path \<Rightarrow> nat \<Rightarrow> 8 word list \<Rightarrow> string \<Rightarrow> string \<Rightarrow> string option \<Rightarrow> error + string" where
  "generateSecureObjectKey path now random tenantId originalFilename documentId =
     (if tenantId = [] \<or> \<not> (tenantId \<noteq> [] \<and> list_all is_id_char tenantId)
      then Inl (Error ''Invalid tenant ID format'' None)
      else
        (case sanitizeFilename originalFilename of
           None \<Rightarrow> Inl (Error ''Invalid filename'' None)
         | Some sanitizedFilename \<Rightarrow>
             if sanitizedFilename = [] then Inl (Error ''Invalid filename'' None)
             else
               let uniqueFilename = generateUniqueFilename path now random sanitizedFilename;
                   objectKey = ''tenants/'' @ tenantId @ ''/documents/raw/'' @
                     (case documentId of
                        None \<Rightarrow> ''temp''
                      | Some d \<Rightarrow> if d = [] then ''temp'' else d) @
                     ''/'' @ uniqueFilename
               in Inr objectKey))"

text \<open>
  \<^verbatim>\<open>s.trim()\<close> and \<^verbatim>\<open>s.toLowerCase()\<close> on the code units below 256: white space is
  U+0009 to U+000D, the space and U+00A0; the letters with a lower-case form are A to Z
  and U+00C0 to U+00DE without the multiplication sign U+00D7.
\<close>

definition is_space :: "char \<Rightarrow> bool" where
  "is_space c \<longleftrightarrow>
     (9 \<le> (of_char c :: nat) \<and> (of_char c :: nat) \<le> 13) \<or>
     (of_char c :: nat) = 32 \<or> (of_char c :: nat) = 160"

definition trim :: "string \<Rightarrow> string" where
  "trim s = rev (dropWhile is_space (rev (dropWhile is_space s)))"

definition lower_char :: "char \<Rightarrow> char" where
  "lower_char c =
     (let n = (of_char c :: nat)
      in if (65 \<le> n \<and> n \<le> 90) \<or> (192 \<le> n \<and> n \<le> 222 \<and> n \<noteq> 215)
         then char_of (n + 32) else c)"

definition toLowerCase :: "string \<Rightarrow> string" where
  "toLowerCase s = map lower_char s"

definition mimeToExtension :: "(string \<times> string list) list" where
  "mimeToExtension =
     [(''application/pdf'', [''pdf'']),
      (''application/msword'', [''doc'']),
      (''application/vnd.openxmlformats-officedocument.wordprocessingml.document'', [''docx'']),
      (''text/plain'', [''txt'']),
      (''text/markdown'', [''md'']),
      (''application/vnd.ms-excel'', [''xls'']),
      (''application/vnd.openxmlformats-officedocument.spreadsheetml.sheet'', [''xlsx'']),
      (''text/csv'', [''csv'']),
      (''image/png'', [''png'']),
      (''image/jpeg'', [''jpg'', ''jpeg'']),
      (''image/gif'', [''gif'']),
      (''image/webp'', [''webp''])]"

text \<open>
  The configuration (\<^verbatim>\<open>env.ALLOWED_FILE_TYPES\<close>, \<^verbatim>\<open>env.MAX_FILE_SIZE\<close>) and the
  presigner (\<^verbatim>\<open>getSignedUrl\<close> for a \<^verbatim>\<open>PutObjectCommand\<close> on a key with a content type)
  are parameters.
\<close>

record upload_env =
  ALLOWED_FILE_TYPES :: string
  MAX_FILE_SIZE :: int
  node_path :: node_path
  getSignedUrl_put :: "string \<Rightarrow> string \<Rightarrow> error + string"

definition validateFileType :: "upload_env \<Rightarrow> string \<Rightarrow> string \<Rightarrow> bool" where
  "validateFileType env mimeType filename =
     (let allowedTypes = map trim (split_on CHR '','' (ALLOWED_FILE_TYPES env));
          fileExtension = toLowerCase (last (split_on CHR ''.'' filename))
      in if fileExtension \<in> set allowedTypes then True
         else list_ex (\<lambda>(mime, extensions).
                mime = mimeType \<and> fileExtension \<in> set extensions \<and>
                list_ex (\<lambda>allowed. allowed \<in> set extensions) allowedTypes)
              mimeToExtension)"

definition validateFileSize :: "upload_env \<Rightarrow> int \<Rightarrow> bool" where
  "validateFileSize env fileSize \<longleftrightarrow> fileSize \<le> MAX_FILE_SIZE env"

record upload_url =
  url_presignedUrl :: string
  url_objectKey :: string
  url_filename :: string

definition generatePresignedUploadUrl ::
  "upload_env \<Rightarrow> nat \<Rightarrow> 8 word list \<Rightarrow> string \<Rightarrow> string \<Rightarrow> string \<Rightarrow> int \<Rightarrow> string option
     \<Rightarrow> error + upload_url" where
  "generatePresignedUploadUrl env now random tenantId originalFilename mimeType fileSize documentId =
     (if tenantId = [] then Inl (Error ''Unauthorized: Missing tenant ID'' None)
      else if \<not> validateFileType env mimeType originalFilename
        then Inl (Error ''File type not allowed'' None)
      else if \<not> validateFileSize env fileSize
        then Inl (Error ''File size exceeds maximum allowed size'' None)
      else
        (case generateSecureObjectKey (node_path env) now random tenantId originalFilename documentId of
           Inl e \<Rightarrow> Inl e
         | Inr key \<Rightarrow>
             (case getSignedUrl_put env key mimeType of
                Inl e \<Rightarrow> Inl e
              | Inr url \<Rightarrow>
                  Inr \<lparr>url_presignedUrl = url, url_objectKey = key,
                       url_filename = originalFilename\<rparr>)))"


section \<open>The download service\<close>

text \<open>
  The document table is a list of rows; only the columns the service reads are kept.
  \<^verbatim>\<open>prisma.document.findFirst\<close> returns the first row that satisfies the whole
  \<^verbatim>\<open>where\<close> clause, or \<^verbatim>\<open>null\<close>.
\<close>

record folder =
  folder_allowedRoles :: "string list option"

record document =
  doc_id :: string
  doc_tenantId :: string
  doc_deletedAt :: "string option"
  doc_allowedRoles :: "string list option"
  doc_folder :: "folder option"
  doc_storageKey :: "string option"
  doc_originalName :: "string option"
  doc_name :: string
  doc_mimeType :: string

text \<open>
  A role list that is absent (\<^verbatim>\<open>null\<close>, or the document has no folder) counts like the
  empty list: the source tests \<^verbatim>\<open>roles && roles.length > 0\<close>.
\<close>

definition checkUserAccess :: "document \<Rightarrow> string list \<Rightarrow> bool" where
  "checkUserAccess doc userRoles =
     (let allowedRoles = (case doc_allowedRoles doc of None \<Rightarrow> [] | Some roles \<Rightarrow> roles);
          folderRoles =
            (case doc_folder doc of
               None \<Rightarrow> []
             | Some f \<Rightarrow> (case folder_allowedRoles f of None \<Rightarrow> [] | Some roles \<Rightarrow> roles))
      in if length allowedRoles > 0
         then list_ex (\<lambda>userRole. userRole \<in> set allowedRoles) userRoles
         else if length folderRoles > 0
         then list_ex (\<lambda>userRole. userRole \<in> set folderRoles) userRoles
         else True)"

definition validateDocumentAccess ::
  "document list \<Rightarrow> string \<Rightarrow> string \<Rightarrow> string \<Rightarrow> string list \<Rightarrow> document option" where
  "validateDocumentAccess db documentId userId userTenantId userRoles =
     (case find (\<lambda>d. doc_id d = documentId \<and> doc_tenantId d = userTenantId \<and>
                       doc_deletedAt d = None) db of
        None \<Rightarrow> None
      | Some doc \<Rightarrow> if \<not> checkUserAccess doc userRoles then None else Some doc)"

text \<open>The download service's own key check; \<open>None\<close> is a \<^verbatim>\<open>null\<close> storage key.\<close>

definition download_validateS3Key :: "string option \<Rightarrow> string \<Rightarrow> bool" where
  "download_validateS3Key s3Key userTenantId =
     (case s3Key of
        None \<Rightarrow> False
      | Some key \<Rightarrow>
          if key = [] \<or> userTenantId = [] then False
          else
            let expectedPrefix = ''tenants/'' @ userTenantId @ ''/''
            in if \<not> startsWith key expectedPrefix then False
               else
                 let parts = split_on CHR ''/'' key
                 in if length parts < 4 \<or> parts ! 2 \<noteq> ''documents'' then False else True)"

record download_url =
  downloadUrl :: string
  dl_documentId :: string
  fileName :: string
  dl_mimeType :: string

text \<open>
  \<open>getSignedUrl_get\<close> is the presigner for a \<^verbatim>\<open>GetObjectCommand\<close> on a key.
\<close>

definition generatePresignedDownloadUrl ::
  "(string \<Rightarrow> error + string) \<Rightarrow> document list \<Rightarrow> string \<Rightarrow> string \<Rightarrow> string \<Rightarrow> string list
     \<Rightarrow> error + download_url" where
  "generatePresignedDownloadUrl getSignedUrl_get db documentId userId userTenantId userRoles =
     (case validateDocumentAccess db documentId userId userTenantId userRoles of
        None \<Rightarrow> Inl (Error ''Document not found or access denied'' None)
      | Some doc \<Rightarrow>
          if \<not> download_validateS3Key (doc_storageKey doc) userTenantId
          then Inl (Error ''Invalid S3 key for tenant'' None)
          else
            (case doc_storageKey doc of
               None \<Rightarrow> Inl (Error ''Document does not have an S3 storage key'' None)
             | Some key \<Rightarrow>
                 if key = [] then Inl (Error ''Document does not have an S3 storage key'' None)
                 else
                   (case getSignedUrl_get key of
                      Inl e \<Rightarrow> Inl e
                    | Inr url \<Rightarrow>
                        Inr \<lparr>downloadUrl = url, dl_documentId = doc_id doc,
                             fileName =
                               (case doc_originalName doc of
                                  None \<Rightarrow> doc_name doc
                                | Some n \<Rightarrow> if n = [] then doc_name doc else n),
                             dl_mimeType = doc_mimeType doc\<rparr>)))"

section \<open>The ingestion service\<close>

text \<open>
  The collaborators (object store, text extractor, document table, embedder, vector store)
  are parameters that answer each call with a value or with a thrown error. Every call the
  service issues is appended to a trace, whether it succeeds or not. Vectors are of an
  arbitrary type \<open>'v\<close>.
\<close>

record doc_update =
  upd_extractedText :: "string option"
  upd_status :: string

record 'v embedding =
  emb_id :: string
  emb_vector :: "'v option"
  meta_tenantId :: string
  meta_documentId :: string
  meta_chunkIndex :: nat
  meta_text :: string
  meta_source :: string

record chunk =
  chunk_id :: string
  chunk_text :: string
  chunk_documentId :: string
  chunk_chunkIndex :: nat

datatype 'v ingestion_event =
    S3GetObject string
  | DocumentUpdate string doc_update
  | StoreEmbedding "'v embedding"

record 'v ingestion_env =
  s3_getObject :: "string \<Rightarrow> error + 8 word list"
  textExtractor_extract :: "8 word list \<Rightarrow> error + string"
  document_update :: "string \<Rightarrow> doc_update \<Rightarrow> error + unit"
  generateEmbeddings :: "string list \<Rightarrow> error + 'v list"
  vectorStore_storeEmbedding :: "'v embedding \<Rightarrow> error + unit"

definition fetchDocumentFromS3 ::
  "'v ingestion_env \<Rightarrow> string \<Rightarrow> 'v ingestion_event list \<times> (error + 8 word list)" where
  "fetchDocumentFromS3 env s3Key = ([S3GetObject s3Key], s3_getObject env s3Key)"

text \<open>
  \<^verbatim>\<open>chunkText\<close>: windows of 1000 characters, the last one possibly shorter; the loop
  variable \<open>i\<close> of the source is the number of characters already consumed.
\<close>

function chunkText_loop :: "string \<Rightarrow> string \<Rightarrow> chunk list \<Rightarrow> chunk list" where
  "chunkText_loop text documentId chunks =
     (if text = [] then chunks
      else chunkText_loop (drop 1000 text) documentId
             (chunks @ [\<lparr>chunk_id = documentId @ ''_chunk_'' @ decimal (length chunks),
                         chunk_text = take 1000 text,
                         chunk_documentId = documentId,
                         chunk_chunkIndex = length chunks\<rparr>]))"
  by pat_completeness auto
termination
  by (relation "measure (\<lambda>(text, documentId, chunks). length text)") auto

declare chunkText_loop.simps [simp del]

definition chunkText :: "string \<Rightarrow> string \<Rightarrow> chunk list" where
  "chunkText text documentId = chunkText_loop text documentId []"

text \<open>
  The loop that stores one embedding per chunk; \<^verbatim>\<open>embeddings[i]\<close> is \<^verbatim>\<open>undefined\<close> (\<open>None\<close>)
  beyond the end of the array.
\<close>

function store_loop ::
  "'v ingestion_env \<Rightarrow> string \<Rightarrow> string \<Rightarrow> string \<Rightarrow> 'v list \<Rightarrow> (nat \<times> chunk) list
     \<Rightarrow> 'v ingestion_event list \<Rightarrow> 'v ingestion_event list \<times> (error + unit)" where
  "store_loop env s3Key tenantId documentId embeddings [] ev = (ev, Inr ())"
| "store_loop env s3Key tenantId documentId embeddings ((i, c) # rest) ev =
     (let record = \<lparr>emb_id = documentId @ ''_chunk_'' @ decimal i,
                     emb_vector = (if i < length embeddings then Some (embeddings ! i) else None),
                     meta_tenantId = tenantId,
                     meta_documentId = documentId,
                     meta_chunkIndex = i,
                     meta_text = chunk_text c,
                     meta_source = s3Key\<rparr>;
          ev' = ev @ [StoreEmbedding record]
      in case vectorStore_storeEmbedding env record of
           Inl e \<Rightarrow> (ev', Inl e)
         | Inr u \<Rightarrow> store_loop env s3Key tenantId documentId embeddings rest ev')"
  by pat_completeness auto
termination
  by (relation "measure (\<lambda>(env, s3Key, tenantId, documentId, embeddings, todo, ev). length todo)") auto

text \<open>The body of the \<^verbatim>\<open>try\<close> block of \<^verbatim>\<open>processDocument\<close>.\<close>

definition processDocument_try ::
  "'v ingestion_env \<Rightarrow> string \<Rightarrow> string \<Rightarrow> string
     \<Rightarrow> 'v ingestion_event list \<times> (error + bool)" where
  "processDocument_try env s3Key tenantId documentId =
     (if \<not> validateS3Key s3Key tenantId then ([], Inr False)
      else
        (case fetchDocumentFromS3 env s3Key of
           (ev1, Inl e) \<Rightarrow> (ev1, Inl e)
         | (ev1, Inr documentBuffer) \<Rightarrow>
             (case textExtractor_extract env documentBuffer of
                Inl e \<Rightarrow> (ev1, Inl e)
              | Inr extractedText \<Rightarrow>
                  (let upd1 = \<lparr>upd_extractedText = Some extractedText, upd_status = ''EXTRACTED''\<rparr>;
                       ev2 = ev1 @ [DocumentUpdate documentId upd1]
                   in (case document_update env documentId upd1 of
                         Inl e \<Rightarrow> (ev2, Inl e)
                       | Inr u \<Rightarrow>
                           (let chunks = chunkText extractedText documentId
                            in (case generateEmbeddings env (map chunk_text chunks) of
                                  Inl e \<Rightarrow> (ev2, Inl e)
                                | Inr embeddings \<Rightarrow>
                                    (case store_loop env s3Key tenantId documentId embeddings
                                            (zip [0..<length chunks] chunks) ev2 of
                                       (ev3, Inl e) \<Rightarrow> (ev3, Inl e)
                                     | (ev3, Inr u) \<Rightarrow>
                                         (let upd2 = \<lparr>upd_extractedText = None,
                                                      upd_status = ''READY''\<rparr>;
                                              ev4 = ev3 @ [DocumentUpdate documentId upd2]
                                          in (case document_update env documentId upd2 of
                                                Inl e \<Rightarrow> (ev4, Inl e)
                                              | Inr u \<Rightarrow> (ev4, Inr True)))))))))))"

text \<open>
  The \<^verbatim>\<open>catch\<close> block tries to set the status \<^verbatim>\<open>ERROR\<close>, but the argument of that update
  reads \<^verbatim>\<open>document.metadata\<close>, and no binding named \<^verbatim>\<open>document\<close> is in scope of
  \<^verbatim>\<open>processDocument\<close>: evaluating the argument throws a \<^verbatim>\<open>ReferenceError\<close> before the update
  is issued, the inner \<^verbatim>\<open>try\<close> catches it, and the function returns \<^verbatim>\<open>false\<close>. The handler
  therefore adds no call to the trace.
\<close>

definition processDocument ::
  "'v ingestion_env \<Rightarrow> string \<Rightarrow> string \<Rightarrow> string
     \<Rightarrow> 'v ingestion_event list \<times> (error + bool)" where
  "processDocument env s3Key tenantId documentId =
     (case processDocument_try env s3Key tenantId documentId of
        (ev, Inr b) \<Rightarrow> (ev, Inr b)
      | (ev, Inl error) \<Rightarrow> (ev, Inr False))"


section \<open>The tenant deletion service\<close>

text \<open>
  The tenant and user tables, the object store and the audit log are parameters that
  answer each call with a value or with a thrown error. The trace records, in order, the
  calls issued to the object store and to the audit log, whether they succeed or not.
  \<^verbatim>\<open>new Date().toISOString()\<close> is the parameter \<open>toISOString_now\<close>.
\<close>

record list_page =
  Contents :: "string list option"
  NextContinuationToken :: "string option"

record delete_output =
  Deleted :: "string list option"
  Errors :: "string list option"

record audit_entry =
  action :: string
  entityType :: string
  entityId :: string
  actorType :: string
  actorId :: string
  deletedObjectCount :: nat
  requestedDeletionCount :: nat
  deletionTimestamp :: string
  audit_tenantId :: string

datatype deletion_event =
    S3ListObjects string "string option"
  | S3DeleteObjects "string list"
  | AuditLogCreate audit_entry

record deletion_env =
  tenant_findUnique :: "string \<Rightarrow> error + bool"
  user_count_active :: "string \<Rightarrow> error + nat"
  s3_listObjects :: "string \<Rightarrow> string option \<Rightarrow> error + list_page"
  s3_deleteObjects :: "string list \<Rightarrow> error + delete_output"
  auditLog_create :: "audit_entry \<Rightarrow> error + unit"
  toISOString_now :: string

record deletion_result =
  deletedCount :: nat
  res_requestedDeletionCount :: "nat option"
  res_tenantId :: string

text \<open>
  The \<^verbatim>\<open>do ... while (continuationToken)\<close> loop of \<^verbatim>\<open>listTenantObjects\<close>. The object
  store decides when the listing ends, so the loop need not terminate: a run that never
  returns is the value \<open>None\<close>. An empty token is falsy and ends the loop.
\<close>

partial_function (option) listTenantObjects_loop ::
  "deletion_env \<Rightarrow> string \<Rightarrow> string option \<Rightarrow> string list \<Rightarrow> deletion_event list
     \<Rightarrow> (deletion_event list \<times> (error + string list)) option" where
  "listTenantObjects_loop env prefix continuationToken objectKeys ev =
     (let ev' = ev @ [S3ListObjects prefix continuationToken]
      in (case s3_listObjects env prefix continuationToken of
            Inl e \<Rightarrow> Some (ev', Inl e)
          | Inr response \<Rightarrow>
              (let objectKeys' =
                     (case Contents response of
                        None \<Rightarrow> objectKeys
                      | Some cs \<Rightarrow> objectKeys @ cs)
               in (case NextContinuationToken response of
                     None \<Rightarrow> Some (ev', Inr objectKeys')
                   | Some t \<Rightarrow>
                       if t = [] then Some (ev', Inr objectKeys')
                       else listTenantObjects_loop env prefix (Some t) objectKeys' ev'))))"

declare listTenantObjects_loop.simps [code]

definition listTenantObjects ::
  "deletion_env \<Rightarrow> string \<Rightarrow> (deletion_event list \<times> (error + string list)) option" where
  "listTenantObjects env tenantId =
     (let prefix = ''tenants/'' @ tenantId @ ''/''
      in listTenantObjects_loop env prefix None [] [])"

text \<open>
  \<^verbatim>\<open>logDeletionAudit\<close> issues one \<^verbatim>\<open>auditLog.create\<close> and swallows its failure.
\<close>

definition logDeletionAudit ::
  "deletion_env \<Rightarrow> string \<Rightarrow> nat \<Rightarrow> nat \<Rightarrow> deletion_event list \<Rightarrow> deletion_event list" where
  "logDeletionAudit env tenantId deletedCount_arg requestedCount ev =
     (let entry = \<lparr>action = ''TENANT_S3_DATA_DELETED'',
                    entityType = ''tenant'',
                    entityId = tenantId,
                    actorType = ''SYSTEM'',
                    actorId = ''SYSTEM'',
                    deletedObjectCount = deletedCount_arg,
                    requestedDeletionCount = requestedCount,
                    deletionTimestamp = toISOString_now env,
                    audit_tenantId = tenantId\<rparr>
      in (case auditLog_create env entry of
            Inl e \<Rightarrow> ev @ [AuditLogCreate entry]
          | Inr u \<Rightarrow> ev @ [AuditLogCreate entry]))"

text \<open>
  The batch loop: \<^verbatim>\<open>validObjects.slice(i, i + 1000)\<close> for \<open>i = 0, 1000, ...\<close>; the
  argument \<open>remaining\<close> is \<^verbatim>\<open>validObjects.slice(i)\<close>. A batch that reports errors is only
  logged; a \<^verbatim>\<open>send\<close> that throws ends the loop with that error.
\<close>

function delete_batches ::
  "deletion_env \<Rightarrow> string list \<Rightarrow> nat \<Rightarrow> deletion_event list
     \<Rightarrow> deletion_event list \<times> (error + nat)" where
  "delete_batches env remaining totalDeleted ev =
     (if remaining = [] then (ev, Inr totalDeleted)
      else
        (let batch = take 1000 remaining;
             ev' = ev @ [S3DeleteObjects batch]
         in (case s3_deleteObjects env batch of
               Inl e \<Rightarrow> (ev', Inl e)
             | Inr deleteResult \<Rightarrow>
                 delete_batches env (drop 1000 remaining)
                   (totalDeleted +
                      (case Deleted deleteResult of None \<Rightarrow> 0 | Some ds \<Rightarrow> length ds))
                   ev')))"
  by pat_completeness auto
termination
  by (relation "measure (\<lambda>(env, remaining, totalDeleted, ev). length remaining)") auto

declare delete_batches.simps [simp del]

definition deleteTenantS3Data ::
  "deletion_env \<Rightarrow> string \<Rightarrow> bool
     \<Rightarrow> (deletion_event list \<times> (error + deletion_result)) option" where
  "deleteTenantS3Data env tenantId force =
     (if sanitizeTenantId tenantId = None
      then Some ([], Inl (Error ''Invalid tenant ID format'' None))
      else
        (case tenant_findUnique env tenantId of
           Inl e \<Rightarrow> Some ([], Inl e)
         | Inr tenant \<Rightarrow>
             if \<not> tenant then Some ([], Inl (Error ''Tenant not found'' None))
             else
               (case user_count_active env tenantId of
                  Inl e \<Rightarrow> Some ([], Inl e)
                | Inr activeUsers \<Rightarrow>
                    if activeUsers > 0 \<and> \<not> force
                    then Some ([], Inl (Error (''Tenant has '' @ decimal activeUsers @
                                 '' active users. Use force=true to override.'') None))
                    else
                      (let prefix = ''tenants/'' @ tenantId @ ''/''
                       in if \<not> startsWith prefix ''tenants/'' \<or> \<not> str_includes prefix ''/''
                          then Some ([], Inl (Error ''Invalid S3 prefix format'' None))
                          else
                            (case listTenantObjects env tenantId of
                               None \<Rightarrow> None
                             | Some (ev1, Inl e) \<Rightarrow> Some (ev1, Inl e)
                             | Some (ev1, Inr objectsToDelete) \<Rightarrow>
                                 if length objectsToDelete = 0
                                 then Some (ev1, Inr \<lparr>deletedCount = 0,
                                                      res_requestedDeletionCount = None,
                                                      res_tenantId = tenantId\<rparr>)
                                 else
                                   (let validObjects = filterTenantS3Keys objectsToDelete tenantId
                                    in if length validObjects \<noteq> length objectsToDelete
                                       then Some (ev1, Inl (Error ''Invalid objects found in tenant prefix'' None))
                                       else
                                         (case delete_batches env validObjects 0 ev1 of
                                            (ev2, Inl e) \<Rightarrow> Some (ev2, Inl e)
                                          | (ev2, Inr totalDeleted) \<Rightarrow>
                                              Some (logDeletionAudit env tenantId totalDeleted
                                                      (length validObjects) ev2,
                                                    Inr \<lparr>deletedCount = totalDeleted,
                                                         res_requestedDeletionCount =
                                                           Some (length validObjects),
                                                         res_tenantId = tenantId\<rparr>))))))))"

text \<open>What a trace says about the two kinds of side effect of the workflow.\<close>

fun delete_calls :: "deletion_event list \<Rightarrow> string list list" where
  "delete_calls [] = []"
| "delete_calls (S3DeleteObjects batch # ev) = batch # delete_calls ev"
| "delete_calls (e # ev) = delete_calls ev"

fun audit_writes :: "deletion_event list \<Rightarrow> audit_entry list" where
  "audit_writes [] = []"
| "audit_writes (AuditLogCreate entry # ev) = entry # audit_writes ev"
| "audit_writes (e # ev) = audit_writes ev"

text \<open>
  The three safety checks at the head of \<^verbatim>\<open>deleteTenantS3Data\<close> pass: the tenant
  identifier survives sanitization, the tenant is found, and it has no active user unless
  \<open>force\<close> is set. (The fourth check, on the prefix format, cannot fail.)
\<close>

definition safety_checks_pass :: "deletion_env \<Rightarrow> string \<Rightarrow> bool \<Rightarrow> bool" where
  "safety_checks_pass env tenantId force \<longleftrightarrow>
     sanitizeTenantId tenantId \<noteq> None \<and>
     (case tenant_findUnique env tenantId of Inl e \<Rightarrow> False | Inr tenant \<Rightarrow> tenant) \<and>
     (case user_count_active env tenantId of
        Inl e \<Rightarrow> False
      | Inr activeUsers \<Rightarrow> \<not> (activeUsers > 0 \<and> \<not> force))"

section \<open>The error kinds of the specification\<close>

text \<open>
  The specification names error kinds; the code throws \<^verbatim>\<open>Error\<close> objects that differ in
  their message. These are the errors the claims speak of.
\<close>

definition ForeignObjectsDetected :: error where
  "ForeignObjectsDetected = Error ''Invalid objects found in tenant prefix'' None"

definition NotFoundOrForbidden :: error where
  "NotFoundOrForbidden = Error ''Document not found or access denied'' None"

text \<open>
  The key generation as claim C6 words it, to be compared with
  \<open>generateSecureObjectKey\<close>: the key codec builds the key in the stage \<open>raw\<close>, the
  guard validates it at once, and a key that does not validate is answered with the error
  \<open>InvalidKeyGenerated\<close>.
\<close>

definition InvalidKeyGenerated :: error where
  "InvalidKeyGenerated = Error ''Invalid S3 key generated'' None"

definition spec_generateKey :: "string \<Rightarrow> string \<Rightarrow> string \<Rightarrow> error + string" where
  "spec_generateKey tenantId documentId filename =
     (case generateSecureS3Key tenantId documentId filename (Some ''raw'') of
        Inl e \<Rightarrow> Inl e
      | Inr key \<Rightarrow> if validateS3Key key tenantId then Inr key else Inl InvalidKeyGenerated)"

text \<open>
  Two calls of the key generation with the same arguments; each call reads the clock and
  draws its random bytes once, so a call comes with its pair of timestamp and bytes.
\<close>

definition generateSecureObjectKey_twice ::
  "node_path \<Rightarrow> nat \<times> 8 word list \<Rightarrow> nat \<times> 8 word list \<Rightarrow> string \<Rightarrow> string \<Rightarrow> string option
     \<Rightarrow> (error + string) \<times> (error + string)" where
  "generateSecureObjectKey_twice path first second tenantId originalFilename documentId =
     (generateSecureObjectKey path (fst first) (snd first) tenantId originalFilename documentId,
      generateSecureObjectKey path (fst second) (snd second) tenantId originalFilename documentId)"

section \<open>Example environments\<close>

text \<open>
  An object store that holds the given keys and answers a listing with one page, deletes
  whatever it is asked to delete, and a database in which the tenant exists without
  active users.
\<close>

definition bucket_env :: "string list \<Rightarrow> deletion_env" where
  "bucket_env keys =
     \<lparr>tenant_findUnique = (\<lambda>t. Inr True),
      user_count_active = (\<lambda>t. Inr 0),
      s3_listObjects = (\<lambda>prefix token.
         Inr \<lparr>Contents = (if keys = [] then None else Some keys),
              NextContinuationToken = None\<rparr>),
      s3_deleteObjects = (\<lambda>batch. Inr \<lparr>Deleted = Some batch, Errors = None\<rparr>),
      auditLog_create = (\<lambda>entry. Inr ()),
      toISOString_now = ''2026-01-01T00:00:00.000Z''\<rparr>"

text \<open>
  The runtime's \<^verbatim>\<open>path.extname\<close> and \<^verbatim>\<open>path.basename\<close> on a name without a directory
  part: the extension starts at the last dot, unless that dot is the first character or
  the name is \<open>..\<close>; the base name is the name without that suffix.
\<close>

definition name_extname :: "string \<Rightarrow> string" where
  "name_extname s =
     (case lastIndexOf CHR ''.'' s of
        None \<Rightarrow> []
      | Some i \<Rightarrow> if i = 0 \<or> s = ''..'' then [] else drop i s)"

definition name_basename :: "string \<Rightarrow> string \<Rightarrow> string" where
  "name_basename s ext =
     (if ext = [] then s
      else if s = ext then []
      else if length ext < length s \<and> drop (length s - length ext) s = ext
        then take (length s - length ext) s
      else s)"

definition name_path :: node_path where
  "name_path = \<lparr>extname = name_extname, basename = name_basename\<rparr>"

text \<open>
  A presigner, a document table with one document of tenant \<open>t_1\<close>, and collaborators of the ingestion
  service that always answer: the extractor reads the bytes as text, the embedder gives
  each chunk its length as vector.
\<close>

definition example_getSignedUrl :: "string \<Rightarrow> error + string" where
  "example_getSignedUrl key = Inr (''https://bucket.example/'' @ key)"

definition example_documents :: "document list" where
  "example_documents =
     [\<lparr>doc_id = ''doc_1'', doc_tenantId = ''t_1'', doc_deletedAt = None,
       doc_allowedRoles = None, doc_folder = None,
       doc_storageKey = Some ''tenants/t_1/documents/raw/doc_1/report.pdf'',
       doc_originalName = Some ''report.pdf'', doc_name = ''report'',
       doc_mimeType = ''application/pdf''\<rparr>]"

definition example_ingestion_env :: "nat ingestion_env" where
  "example_ingestion_env =
     \<lparr>s3_getObject = (\<lambda>key. Inr [0x68, 0x69]),
      textExtractor_extract = (\<lambda>bytes. Inr (map (\<lambda>b. char_of (unat b)) bytes)),
      document_update = (\<lambda>documentId data. Inr ()),
      generateEmbeddings = (\<lambda>texts. Inr (map length texts)),
      vectorStore_storeEmbedding = (\<lambda>record. Inr ())\<rparr>"

text \<open>
  An upload configuration: three allowed extensions, ten megabytes, the path functions
  and the presigner above.
\<close>

definition example_upload_env :: upload_env where
  "example_upload_env =
     \<lparr>ALLOWED_FILE_TYPES = ''pdf, docx, txt'',
      MAX_FILE_SIZE = 10485760,
      node_path = name_path,
      getSignedUrl_put = (\<lambda>key contentType. example_getSignedUrl key)\<rparr>"


section \<open>Facts about the string functions\<close>

lemma startsWith_iff: "startsWith s p \<longleftrightarrow> (\<exists>r. s = p @ r)"
  by (induction s p rule: startsWith.induct) auto

lemma startsWith_append [simp]: "startsWith (p @ r) p"
  by (simp add: startsWith_iff)

lemma js_remove_all_subset: "set (js_remove_all p s) \<subseteq> set s"
proof (induction p s rule: js_remove_all.induct)
  case (1 p)
  then show ?case by simp
next
  case (2 p c cs)
  show ?case
  proof (cases "p \<noteq> [] \<and> startsWith (c # cs) p")
    case True
    with 2 have "set (js_remove_all p (c # cs)) \<subseteq> set (drop (length p) (c # cs))"
      by simp
    also have "\<dots> \<subseteq> set (c # cs)" by (rule set_drop_subset)
    finally show ?thesis .
  next
    case False
    with 2 show ?thesis by auto
  qed
qed

lemma js_remove_all_absent: "\<not> str_includes s p \<Longrightarrow> js_remove_all p s = s"
  by (induction s) auto

lemma js_remove_all_keep:
  "q \<noteq> [] \<Longrightarrow> b \<notin> set q \<Longrightarrow> last q \<noteq> a \<Longrightarrow>
   js_remove_all [a, b, c] (q @ r) = q @ js_remove_all [a, b, c] r"
proof (induction q)
  case Nil
  then show ?case by simp
next
  case (Cons x q)
  show ?case
  proof (cases q)
    case Nil
    with Cons.prems show ?thesis by simp
  next
    case (Cons y q')
    with Cons.prems Cons.IH show ?thesis by auto
  qed
qed

lemma filter_keep: "\<forall>c\<in>set q. P c \<Longrightarrow> filter P (q @ r) = q @ filter P r"
  by (induction q) auto

lemma sanitizeS3Key_keeps_prefix:
  assumes "q \<noteq> []" and "\<forall>c\<in>set q. \<not> is_control c" and "CHR ''.'' \<notin> set q"
    and "last q \<noteq> CHR ''/''" and "last q \<noteq> bslash"
  shows "\<exists>r'. sanitizeS3Key (q @ r) = Some (q @ r')"
proof -
  from assms have dot: "last q \<noteq> CHR ''.''" using last_in_set by metis
  have "filter (\<lambda>c. \<not> is_control c) (q @ r) = q @ filter (\<lambda>c. \<not> is_control c) r"
    using assms(2) by (simp add: filter_keep)
  with assms dot show ?thesis
    by (simp add: sanitizeS3Key_def js_remove_all_keep Let_def)
qed

lemma split_on_unfold:
  "split_on d s = takeWhile (\<lambda>c. c \<noteq> d) s #
     (case dropWhile (\<lambda>c. c \<noteq> d) s of [] \<Rightarrow> [] | x # r \<Rightarrow> split_on d r)"
  by (induction s) (auto split: list.splits)

lemma split_on_segment:
  "d \<notin> set p \<Longrightarrow> split_on d (p @ d # r) = p # split_on d r"
  by (induction p) (auto split: list.splits)

lemma split_on_not_Nil [simp]: "split_on d s \<noteq> []"
  by (induction s) (auto split: list.splits)

lemma is_id_char_facts:
  "is_id_char c \<Longrightarrow> \<not> is_control c \<and> c \<noteq> CHR ''.'' \<and> c \<noteq> CHR ''/'' \<and> c \<noteq> bslash"
  by (auto simp: is_id_char_def is_alnum_def is_control_def)

lemma sanitizeTenantId_Some:
  "sanitizeTenantId t = Some s \<Longrightarrow> t \<noteq> [] \<and> s \<noteq> [] \<and> (\<forall>c\<in>set s. is_id_char c)"
  by (auto simp: sanitizeTenantId_def Let_def split: if_splits)

section \<open>Facts about the guard\<close>

lemma split_on_Cons_Cons:
  assumes "split_on d s = p # q # ps"
  shows "\<exists>r. s = p @ d # r \<and> d \<notin> set p \<and> split_on d r = q # ps"
proof -
  let ?nd = "\<lambda>c. c \<noteq> d"
  from assms have p: "p = takeWhile ?nd s"
    and rest: "(case dropWhile ?nd s of [] \<Rightarrow> [] | x # r \<Rightarrow> split_on d r) = q # ps"
    by (subst (asm) split_on_unfold, simp)+
  from rest obtain x r where dw: "dropWhile ?nd s = x # r" and sr: "split_on d r = q # ps"
    by (auto split: list.splits)
  from dw have "x = d" using hd_dropWhile [of ?nd s] by auto
  moreover have "s = takeWhile ?nd s @ dropWhile ?nd s" by simp
  moreover have "d \<notin> set (takeWhile ?nd s)" by (auto dest: set_takeWhileD)
  ultimately show ?thesis using p dw sr by metis
qed

lemma structure_shape:
  assumes "validateS3KeyStructure k"
  shows "\<exists>p1 r. k = ''tenants/'' @ p1 @ ''/documents/'' @ r \<and> CHR ''/'' \<notin> set p1"
proof -
  let ?parts = "split_on CHR ''/'' k"
  from assms have len: "4 \<le> length ?parts" and p0: "?parts ! 0 = ''tenants''"
    and p2: "?parts ! 2 = ''documents''"
    by (auto simp: validateS3KeyStructure_def Let_def split: if_splits)
  from len obtain a b c e ps where parts: "?parts = a # b # c # e # ps"
    by (cases ?parts; simp) (metis Suc_le_length_iff numeral_3_eq_3 Suc_le_mono)
  from p0 p2 parts have a: "a = ''tenants''" and c: "c = ''documents''" by simp_all
  from split_on_Cons_Cons [OF parts] obtain r1 where
    k: "k = a @ CHR ''/'' # r1" and s1: "split_on CHR ''/'' r1 = b # c # e # ps" by blast
  from split_on_Cons_Cons [OF s1] obtain r2 where
    r1: "r1 = b @ CHR ''/'' # r2" and b: "CHR ''/'' \<notin> set b"
    and s2: "split_on CHR ''/'' r2 = c # e # ps" by blast
  from split_on_Cons_Cons [OF s2] obtain r3 where
    r2: "r2 = c @ CHR ''/'' # r3" by blast
  from k r1 r2 a c have "k = ''tenants/'' @ b @ ''/documents/'' @ r3" by simp
  with b show ?thesis by blast
qed

lemma extractTenantId_shape:
  assumes "extractTenantId k = Some a"
  shows "\<exists>r. k = ''tenants/'' @ a @ CHR ''/'' # r \<and> a \<noteq> [] \<and> CHR ''/'' \<notin> set a"
proof -
  let ?nd = "\<lambda>c. c \<noteq> CHR ''/''"
  from assms have sw: "startsWith k ''tenants/''"
    and a: "a = takeWhile ?nd (drop 8 k)" and ne: "a \<noteq> []"
    and tl: "dropWhile ?nd (drop 8 k) \<noteq> []"
    by (auto simp: extractTenantId_def Let_def split: if_splits)
  from sw obtain rest where k: "k = ''tenants/'' @ rest" by (auto simp: startsWith_iff)
  then have rest: "drop 8 k = rest" by simp
  from tl rest obtain x r where dw: "dropWhile ?nd rest = x # r" by (cases "dropWhile ?nd rest") auto
  then have "x = CHR ''/''" using hd_dropWhile [of ?nd rest] by auto
  moreover have "rest = takeWhile ?nd rest @ dropWhile ?nd rest" by simp
  ultimately have "rest = a @ CHR ''/'' # r" using a rest dw by metis
  moreover have "CHR ''/'' \<notin> set a" unfolding a by (auto dest: set_takeWhileD)
  ultimately show ?thesis using k ne by blast
qed

lemma takeWhile_segment: "d \<notin> set a \<Longrightarrow> takeWhile (\<lambda>c. c \<noteq> d) (a @ d # x) = a"
  by (induction a) auto

lemma segment_unique:
  assumes "a @ d # x = b @ d # y" and "d \<notin> set a" and "d \<notin> set b"
  shows "a = b"
proof -
  have "takeWhile (\<lambda>c. c \<noteq> d) (a @ d # x) = a" using assms(2) by (rule takeWhile_segment)
  moreover have "takeWhile (\<lambda>c. c \<noteq> d) (b @ d # y) = b" using assms(3) by (rule takeWhile_segment)
  ultimately show ?thesis using assms(1) by simp
qed

lemma ownership_of_well_formed_prefix:
  assumes a: "a \<noteq> []" "\<forall>c\<in>set a. is_id_char c"
    and own: "validateTenantOwnership (''tenants/'' @ a @ ''/d'' @ r) b"
  shows "sanitizeTenantId b = Some a"
proof -
  let ?q = "''tenants/'' @ a @ ''/d''"
  let ?k = "?q @ r"
  have q: "?q \<noteq> []" "\<forall>c\<in>set ?q. \<not> is_control c" "CHR ''.'' \<notin> set ?q"
    "last ?q \<noteq> CHR ''/''" "last ?q \<noteq> bslash"
    using a is_id_char_facts by (auto simp: is_control_def)
  from sanitizeS3Key_keeps_prefix [OF q] obtain r' where sk: "sanitizeS3Key ?k = Some (?q @ r')"
    by blast
  from own sk obtain sb where sb: "sanitizeTenantId b = Some sb"
    and sw: "startsWith (?q @ r') (''tenants/'' @ sb @ ''/'')"
    by (auto simp: validateTenantOwnership_def Let_def split: if_splits option.splits)
  from sw obtain y where "?q @ r' = (''tenants/'' @ sb @ ''/'') @ y"
    unfolding startsWith_iff by blast
  then have eq: "a @ CHR ''/'' # (CHR ''d'' # r') = sb @ CHR ''/'' # y" by simp
  have "CHR ''/'' \<notin> set a" using a is_id_char_facts by blast
  moreover have "CHR ''/'' \<notin> set sb" using sanitizeTenantId_Some [OF sb] is_id_char_facts by blast
  ultimately have "a = sb" using segment_unique [OF eq] by simp
  with sb show ?thesis by simp
qed

lemma isolation:
  assumes ex: "extractTenantId k = Some a" and wf: "sanitizeTenantId a = Some a"
    and diff: "sanitizeTenantId b \<noteq> Some a"
  shows "\<not> validateS3Key k b"
proof
  assume v: "validateS3Key k b"
  then have own: "validateTenantOwnership k b" and str: "validateS3KeyStructure k"
    by (simp_all add: validateS3Key_def)
  from extractTenantId_shape [OF ex] obtain r where
    k1: "k = ''tenants/'' @ a @ CHR ''/'' # r" and na: "CHR ''/'' \<notin> set a" by blast
  from structure_shape [OF str] obtain p1 r2 where
    k2: "k = ''tenants/'' @ p1 @ ''/documents/'' @ r2" and np: "CHR ''/'' \<notin> set p1" by blast
  from k1 k2 have "a @ CHR ''/'' # r = p1 @ CHR ''/'' # (''documents/'' @ r2)" by simp
  from segment_unique [OF this na np] have "p1 = a" by simp
  with k2 have k3: "k = ''tenants/'' @ a @ ''/d'' @ (''ocuments/'' @ r2)" by simp
  from sanitizeTenantId_Some [OF wf] have "a \<noteq> []" "\<forall>c\<in>set a. is_id_char c" by simp_all
  from ownership_of_well_formed_prefix [OF this own [unfolded k3]] diff show False by simp
qed

lemma validates_under_prefix:
  assumes st: "sanitizeTenantId b = Some t"
  shows "validateS3Key (''tenants/'' @ t @ ''/documents/'' @ r) b"
proof -
  let ?k = "''tenants/'' @ t @ ''/documents/'' @ r"
  from sanitizeTenantId_Some [OF st] have b: "b \<noteq> []" and ne: "t \<noteq> []"
    and idc: "\<forall>c\<in>set t. is_id_char c" by simp_all
  let ?q = "''tenants/'' @ t @ ''/d''"
  have q: "?q \<noteq> []" "\<forall>c\<in>set ?q. \<not> is_control c" "CHR ''.'' \<notin> set ?q"
    "last ?q \<noteq> CHR ''/''" "last ?q \<noteq> bslash"
    using idc is_id_char_facts by (auto simp: is_control_def)
  have k': "?k = ?q @ (''ocuments/'' @ r)" by simp
  from sanitizeS3Key_keeps_prefix [OF q] obtain r' where sk: "sanitizeS3Key ?k = Some (?q @ r')"
    unfolding k' by blast
  have "startsWith (?q @ r') (''tenants/'' @ t @ ''/'')"
    unfolding startsWith_iff by simp
  with sk st b ne have own: "validateTenantOwnership ?k b"
    by (simp add: validateTenantOwnership_def)
  have nst: "CHR ''/'' \<notin> set t" using idc is_id_char_facts by blast
  have "split_on CHR ''/'' ?k = ''tenants'' # t # ''documents'' # split_on CHR ''/'' r"
  proof -
    have "?k = ''tenants'' @ CHR ''/'' # (t @ CHR ''/'' # (''documents'' @ CHR ''/'' # r))"
      by simp
    then show ?thesis using nst by (simp only: split_on_segment) (simp add: split_on_segment)
  qed
  moreover have "1 \<le> length (split_on CHR ''/'' r)"
    using split_on_not_Nil [of "CHR ''/''" r] by (cases "split_on CHR ''/'' r") auto
  ultimately have "validateS3KeyStructure ?k"
    by (simp add: validateS3KeyStructure_def)
  with own show ?thesis by (simp add: validateS3Key_def)
qed


lemma sanitizeS3Key_clean:
  assumes "s \<noteq> []" and "\<forall>c\<in>set s. \<not> is_control c" and "\<not> has_traversal s"
  shows "sanitizeS3Key s = Some s"
proof -
  have "filter (\<lambda>c. \<not> is_control c) s = s" using assms(2) by (simp add: filter_id_conv)
  with assms(1,3) show ?thesis
    by (simp add: sanitizeS3Key_def has_traversal_def js_remove_all_absent)
qed

lemma js_remove_all_member: "c \<in> set (js_remove_all p s) \<Longrightarrow> c \<in> set s"
  using js_remove_all_subset [of p s] by blast

lemma sanitizeS3Key_no_control:
  assumes "sanitizeS3Key k = Some s"
  shows "\<forall>c\<in>set s. \<not> is_control c"
proof
  fix c assume c: "c \<in> set s"
  from assms have
    "s = js_remove_all [bslash, CHR ''.'', CHR ''.'']
           (js_remove_all [CHR ''/'', CHR ''.'', CHR ''.'']
             (js_remove_all [CHR ''.'', CHR ''.'', bslash]
               (js_remove_all [CHR ''.'', CHR ''.'', CHR ''/'']
                 (filter (\<lambda>c. \<not> is_control c) k))))"
    by (simp add: sanitizeS3Key_def Let_def split: if_splits)
  with c have "c \<in> set (filter (\<lambda>c. \<not> is_control c) k)"
    by (blast dest: js_remove_all_member)
  then show "\<not> is_control c" by simp
qed

lemma js_remove_all_length_le: "length (js_remove_all p s) \<le> length s"
proof (induction p s rule: js_remove_all.induct)
  case (1 p)
  then show ?case by simp
next
  case (2 p c cs)
  show ?case
  proof (cases "p \<noteq> [] \<and> startsWith (c # cs) p")
    case True
    with 2 have "length (js_remove_all p (c # cs)) \<le> length (drop (length p) (c # cs))"
      by simp
    then show ?thesis by simp
  next
    case False
    with 2 show ?thesis by auto
  qed
qed

lemma js_remove_all_length_less:
  "p \<noteq> [] \<Longrightarrow> str_includes s p \<Longrightarrow> length (js_remove_all p s) < length s"
proof (induction s)
  case Nil
  then show ?case by simp
next
  case (Cons c cs)
  show ?case
  proof (cases "startsWith (c # cs) p")
    case True
    have "length (js_remove_all p (drop (length p) (c # cs))) \<le> length (drop (length p) (c # cs))"
      by (rule js_remove_all_length_le)
    also have "\<dots> < length (c # cs)" using Cons.prems(1) by (cases p) auto
    finally show ?thesis using True Cons.prems(1) by simp
  next
    case False
    with Cons show ?thesis by auto
  qed
qed

lemma sanitizeS3Key_fixed_iff:
  assumes "s \<noteq> []" and "\<forall>c\<in>set s. \<not> is_control c"
  shows "sanitizeS3Key s = Some s \<longleftrightarrow> \<not> has_traversal s"
proof
  assume "\<not> has_traversal s"
  with assms show "sanitizeS3Key s = Some s" by (rule sanitizeS3Key_clean)
next
  assume fx: "sanitizeS3Key s = Some s"
  let ?p1 = "[CHR ''.'', CHR ''.'', CHR ''/'']" and ?p2 = "[CHR ''.'', CHR ''.'', bslash]"
  let ?p3 = "[CHR ''/'', CHR ''.'', CHR ''.'']" and ?p4 = "[bslash, CHR ''.'', CHR ''.'']"
  let ?s1 = "js_remove_all ?p1 s"
  let ?s2 = "js_remove_all ?p2 ?s1"
  let ?s3 = "js_remove_all ?p3 ?s2"
  let ?s4 = "js_remove_all ?p4 ?s3"
  have f: "filter (\<lambda>c. \<not> is_control c) s = s" using assms(2) by (simp add: filter_id_conv)
  with fx assms(1) have s4: "?s4 = s" by (simp add: sanitizeS3Key_def)
  have l1: "length ?s1 \<le> length s" and l2: "length ?s2 \<le> length ?s1"
    and l3: "length ?s3 \<le> length ?s2" and l4: "length ?s4 \<le> length ?s3"
    by (rule js_remove_all_length_le)+
  from s4 l1 l2 l3 l4 have e: "length ?s1 = length s" "length ?s2 = length ?s1"
    "length ?s3 = length ?s2" "length ?s4 = length ?s3" by simp_all
  have n1: "\<not> str_includes s ?p1" using js_remove_all_length_less [of ?p1 s] e(1) by auto
  then have s1: "?s1 = s" by (rule js_remove_all_absent)
  have n2: "\<not> str_includes s ?p2" using js_remove_all_length_less [of ?p2 ?s1] e(2) s1 by auto
  then have s2: "?s2 = s" using s1 by (simp add: js_remove_all_absent)
  have n3: "\<not> str_includes s ?p3" using js_remove_all_length_less [of ?p3 ?s2] e(3) s2 by auto
  then have s3: "?s3 = s" using s2 by (simp add: js_remove_all_absent)
  have n4: "\<not> str_includes s ?p4" using js_remove_all_length_less [of ?p4 ?s3] e(4) s3 by auto
  from n1 n2 n3 n4 show "\<not> has_traversal s" by (simp add: has_traversal_def)
qed

lemmas guard_defs = validateS3Key_def validateTenantOwnership_def validateS3KeyStructure_def
  sanitizeS3Key_def sanitizeTenantId_def is_control_def is_id_char_def is_alnum_def
  extractTenantId_def generateSecureS3Key_def

section \<open>Facts about the deletion service\<close>

lemma delete_calls_append [simp]: "delete_calls (a @ b) = delete_calls a @ delete_calls b"
  by (induction a rule: delete_calls.induct) auto

lemma audit_writes_append [simp]: "audit_writes (a @ b) = audit_writes a @ audit_writes b"
  by (induction a rule: audit_writes.induct) auto

lemma listTenantObjects_loop_effects:
  assumes run: "listTenantObjects_loop env prefix tok keys ev = Some y"
  shows "delete_calls (fst y) = delete_calls ev \<and> audit_writes (fst y) = audit_writes ev"
proof (rule listTenantObjects_loop.raw_induct
    [where P = "\<lambda>env prefix tok keys ev y.
       delete_calls (fst y) = delete_calls ev \<and> audit_writes (fst y) = audit_writes ev"],
    goal_cases)
  case (1 f env prefix tok keys ev y)
  note IH = 1(1) and eq = 1(2)
  show ?case
  proof (cases "s3_listObjects env prefix tok")
    case (Inl e)
    with eq show ?thesis by (auto simp: Let_def)
  next
    case (Inr response)
    show ?thesis
    proof (cases "NextContinuationToken response")
      case None
      with eq Inr show ?thesis by (auto simp: Let_def)
    next
      case (Some t)
      show ?thesis
      proof (cases "t = []")
        case True
        with eq Inr Some show ?thesis by (auto simp: Let_def)
      next
        case False
        with eq Inr Some have
          "f env prefix (Some t)
             (case Contents response of None \<Rightarrow> keys | Some cs \<Rightarrow> keys @ cs)
             (ev @ [S3ListObjects prefix tok]) = Some y"
          by (simp add: Let_def)
        from IH [OF this] show ?thesis by simp
      qed
    qed
  qed
qed (rule run)

lemma listTenantObjects_effects:
  assumes "listTenantObjects env t = Some (ev, r)"
  shows "delete_calls ev = [] \<and> audit_writes ev = []"
  using listTenantObjects_loop_effects [of env _ None "[]" "[]" "(ev, r)"] assms
  by (simp add: listTenantObjects_def)

lemma delete_batches_audit:
  "delete_batches env remaining n ev = (ev', r) \<Longrightarrow> audit_writes ev' = audit_writes ev"
proof (induction env remaining n ev rule: delete_batches.induct)
  case (1 env remaining n ev)
  show ?case
  proof (cases "remaining = []")
    case True
    with 1(2) show ?thesis by (simp add: delete_batches.simps)
  next
    case False
    show ?thesis
    proof (cases "s3_deleteObjects env (take 1000 remaining)")
      case (Inl e)
      with False 1(2) show ?thesis by (auto simp: delete_batches.simps [of env remaining])
    next
      case (Inr out)
      with False 1(2) 1(1) [OF False refl refl Inr] show ?thesis
        by (simp add: delete_batches.simps [of env remaining])
    qed
  qed
qed

lemma deleteTenantS3Data_checks_fail:
  assumes "\<not> safety_checks_pass env tenantId force"
  shows "\<exists>e. deleteTenantS3Data env tenantId force = Some ([], Inl e)"
  using assms
  by (auto simp: deleteTenantS3Data_def safety_checks_pass_def split: sum.splits)

lemma listTenantObjects_bucket:
  "listTenantObjects (bucket_env keys) t = Some ([S3ListObjects (''tenants/'' @ t @ ''/'') None], Inr keys)"
  by (simp add: listTenantObjects_def listTenantObjects_loop.simps bucket_env_def)

lemma safety_checks_bucket:
  "safety_checks_pass (bucket_env keys) t force \<longleftrightarrow> sanitizeTenantId t \<noteq> None"
  by (simp add: safety_checks_pass_def bucket_env_def)

lemma deleteTenantS3Data_audit:
  assumes "deleteTenantS3Data env tenantId force = Some (ev, r)"
  shows "audit_writes ev =
     (case r of
        Inl e \<Rightarrow> []
      | Inr res \<Rightarrow>
          (case res_requestedDeletionCount res of
             None \<Rightarrow> []
           | Some requested \<Rightarrow>
               [\<lparr>action = ''TENANT_S3_DATA_DELETED'', entityType = ''tenant'',
                 entityId = tenantId, actorType = ''SYSTEM'', actorId = ''SYSTEM'',
                 deletedObjectCount = deletedCount res,
                 requestedDeletionCount = requested,
                 deletionTimestamp = toISOString_now env,
                 audit_tenantId = tenantId\<rparr>]))"
proof (cases "listTenantObjects env tenantId")
  case None
  with assms show ?thesis
    by (auto simp: deleteTenantS3Data_def Let_def split: if_splits sum.splits)
next
  case (Some l)
  obtain ev1 r1 where l: "l = (ev1, r1)" by (cases l)
  from listTenantObjects_effects [OF Some [unfolded l]] have a1: "audit_writes ev1 = []" by simp
  show ?thesis
  proof (cases r1)
    case (Inl e)
    with assms Some l a1 show ?thesis
      by (auto simp: deleteTenantS3Data_def Let_def split: if_splits sum.splits)
  next
    case (Inr listed)
    obtain ev2 r2 where b: "delete_batches env (filterTenantS3Keys listed tenantId) 0 ev1 = (ev2, r2)"
      by (cases "delete_batches env (filterTenantS3Keys listed tenantId) 0 ev1")
    from delete_batches_audit [OF b] a1 have a2: "audit_writes ev2 = []" by simp
    from assms Some l Inr a1 a2 b show ?thesis
      by (auto simp: deleteTenantS3Data_def logDeletionAudit_def Let_def
          split: if_splits sum.splits)
  qed
qed

lemma deleteTenantS3Data_zero_objects:
  assumes "safety_checks_pass env tenantId force"
    and "listTenantObjects env tenantId = Some (ev, Inr [])"
  shows "deleteTenantS3Data env tenantId force =
     Some (ev, Inr \<lparr>deletedCount = 0, res_requestedDeletionCount = None, res_tenantId = tenantId\<rparr>)"
proof -
  from assms(1) obtain n where c: "sanitizeTenantId tenantId \<noteq> None"
    "tenant_findUnique env tenantId = Inr True" "user_count_active env tenantId = Inr n"
    "\<not> (n > 0 \<and> \<not> force)"
    by (auto simp: safety_checks_pass_def split: sum.splits)
  show ?thesis using c assms(2) by (simp add: deleteTenantS3Data_def Let_def)
qed


section \<open>Facts about the download service\<close>

lemma find_foreign:
  assumes "\<forall>d\<in>set db. doc_id d = documentId \<longrightarrow> doc_tenantId d \<noteq> userTenantId"
  shows "validateDocumentAccess db documentId userId userTenantId userRoles = None"
proof -
  have "find (\<lambda>d. doc_id d = documentId \<and> doc_tenantId d = userTenantId \<and>
                       doc_deletedAt d = None) db = None"
    using assms by (auto simp: find_None_iff)
  then show ?thesis by (simp add: validateDocumentAccess_def)
qed


section \<open>Facts about the upload service\<close>

lemma sanitizeTenantId_id:
  assumes "t \<noteq> []" and "list_all is_id_char t"
  shows "sanitizeTenantId t = Some t"
proof -
  from assms(2) have "filter is_id_char t = t" by (simp add: list_all_iff filter_id_conv)
  with assms(1) show ?thesis by (simp add: sanitizeTenantId_def)
qed

lemma generateSecureObjectKey_Inr:
  assumes "generateSecureObjectKey path now rnd t f d = Inr key"
  shows "\<exists>sf. sanitizeFilename f = Some sf \<and> sf \<noteq> [] \<and> t \<noteq> [] \<and> list_all is_id_char t \<and>
           key = ''tenants/'' @ t @ ''/documents/raw/'' @
                 (case d of None \<Rightarrow> ''temp'' | Some x \<Rightarrow> if x = [] then ''temp'' else x) @
                 ''/'' @ generateUniqueFilename path now rnd sf"
  using assms
  by (auto simp: generateSecureObjectKey_def Let_def split: if_splits option.splits)

lemma generateSecureObjectKey_validates:
  assumes "generateSecureObjectKey path now rnd t f d = Inr key"
  shows "validateS3Key key t"
proof -
  from generateSecureObjectKey_Inr [OF assms] obtain r where
    t: "t \<noteq> []" "list_all is_id_char t" and key: "key = ''tenants/'' @ t @ ''/documents/'' @ r"
    by auto
  show ?thesis unfolding key by (rule validates_under_prefix [OF sanitizeTenantId_id [OF t]])
qed

lemma generateSecureObjectKey_failures:
  assumes "generateSecureObjectKey path now rnd t f d = Inl e"
  shows "e = Error ''Invalid tenant ID format'' None \<or> e = Error ''Invalid filename'' None"
  using assms
  by (auto simp: generateSecureObjectKey_def Let_def split: if_splits option.splits)

lemma generatePresignedUploadUrl_key:
  assumes "generatePresignedUploadUrl env now rnd t f mimeType fileSize d = Inr u"
  shows "generateSecureObjectKey (node_path env) now rnd t f d = Inr (url_objectKey u)"
  using assms
  by (auto simp: generatePresignedUploadUrl_def split: if_splits sum.splits)

lemma digit_char_inj: "a < 10 \<Longrightarrow> b < 10 \<Longrightarrow> digit_char a = digit_char b \<Longrightarrow> a = b"
proof -
  assume ab: "a < 10" "b < 10" and eq: "digit_char a = digit_char b"
  have "distinct ''0123456789''" by simp
  from nth_eq_iff_index_eq [OF this, of a b] ab eq show ?thesis
    by (simp add: digit_char_def)
qed

lemma hex_digit_inj: "a < 16 \<Longrightarrow> b < 16 \<Longrightarrow> hex_digit a = hex_digit b \<Longrightarrow> a = b"
proof -
  assume ab: "a < 16" "b < 16" and eq: "hex_digit a = hex_digit b"
  have "distinct ''0123456789abcdef''" by simp
  from nth_eq_iff_index_eq [OF this, of a b] ab eq show ?thesis
    by (simp add: hex_digit_def)
qed

lemma hex_byte_inj: "hex_byte a = hex_byte b \<Longrightarrow> a = b"
proof -
  assume "hex_byte a = hex_byte b"
  then have "hex_digit (unat a div 16) = hex_digit (unat b div 16)"
    and "hex_digit (unat a mod 16) = hex_digit (unat b mod 16)"
    by (simp_all add: hex_byte_def)
  moreover have "unat a < 2 ^ LENGTH(8)" "unat b < 2 ^ LENGTH(8)" by (rule unsigned_less)+
  then have "unat a < 256" "unat b < 256" by simp_all
  ultimately have "unat a div 16 = unat b div 16" "unat a mod 16 = unat b mod 16"
    by (auto intro!: hex_digit_inj)
  then have "unat a = unat b" by (metis div_mult_mod_eq)
  then show "a = b" by (simp add: word_unat_eq_iff)
qed

lemma toString_hex_inj: "toString_hex xs = toString_hex ys \<Longrightarrow> xs = ys"
proof (induction xs arbitrary: ys)
  case Nil
  then show ?case by (cases ys) (auto simp: toString_hex_def hex_byte_def)
next
  case (Cons x xs)
  then obtain y ys' where ys: "ys = y # ys'"
    by (cases ys) (auto simp: toString_hex_def hex_byte_def)
  with Cons.prems have "hex_byte x = hex_byte y" "toString_hex xs = toString_hex ys'"
    by (auto simp: toString_hex_def hex_byte_def)
  with Cons.IH ys show ?case by (auto dest: hex_byte_inj)
qed

lemma length_toString_hex: "length (toString_hex xs) = 2 * length xs"
  by (induction xs) (auto simp: toString_hex_def hex_byte_def)

lemma decimal_not_Nil: "decimal n \<noteq> []"
  by (subst decimal.simps) simp

lemma decimal_inj: "decimal m = decimal n \<Longrightarrow> m = n"
proof (induction m arbitrary: n rule: decimal.induct)
  case (1 m)
  show ?case
  proof (cases "m < 10")
    case True
    then have m: "decimal m = [digit_char m]" by (subst decimal.simps) simp
    show ?thesis
    proof (cases "n < 10")
      case n: True
      then have "decimal n = [digit_char n]" by (subst decimal.simps) simp
      with m "1.prems" True n show ?thesis by (auto dest: digit_char_inj)
    next
      case False
      then have "decimal n = decimal (n div 10) @ [digit_char (n mod 10)]"
        by (subst decimal.simps) simp
      with m "1.prems" decimal_not_Nil [of "n div 10"] show ?thesis by (cases "decimal (n div 10)") auto
    qed
  next
    case False
    then have m: "decimal m = decimal (m div 10) @ [digit_char (m mod 10)]"
      by (subst decimal.simps) simp
    show ?thesis
    proof (cases "n < 10")
      case True
      then have "decimal n = [digit_char n]" by (subst decimal.simps) simp
      with m "1.prems" decimal_not_Nil [of "m div 10"] show ?thesis by (cases "decimal (m div 10)") auto
    next
      case n: False
      then have "decimal n = decimal (n div 10) @ [digit_char (n mod 10)]"
        by (subst decimal.simps) simp
      with m "1.prems" have "decimal (m div 10) = decimal (n div 10)"
        and "digit_char (m mod 10) = digit_char (n mod 10)" by simp_all
      with "1.IH" [OF False] have "m div 10 = n div 10" "m mod 10 = n mod 10"
        by (auto intro: digit_char_inj)
      then show ?thesis by (metis div_mult_mod_eq)
    qed
  qed
qed

lemma generateUniqueFilename_inj:
  assumes "generateUniqueFilename path now rnd name = generateUniqueFilename path now' rnd' name"
    and "length rnd = length rnd'"
  shows "now = now' \<and> rnd = rnd'"
proof -
  let ?e = "extname path name"
  let ?b = "basename path name ?e"
  from assms(1) have "decimal now @ ''-'' @ toString_hex rnd = decimal now' @ ''-'' @ toString_hex rnd'"
    by (simp add: generateUniqueFilename_def Let_def)
  then have "(decimal now @ ''-'') @ toString_hex rnd = (decimal now' @ ''-'') @ toString_hex rnd'"
    by simp
  moreover have "length (toString_hex rnd) = length (toString_hex rnd')"
    using assms(2) by (simp add: length_toString_hex)
  ultimately have "decimal now @ ''-'' = decimal now' @ ''-'' \<and> toString_hex rnd = toString_hex rnd'"
    by (metis append_eq_append_conv)
  then show ?thesis by (auto dest: decimal_inj toString_hex_inj)
qed

lemma generateSecureObjectKey_cases:
  "generateSecureObjectKey path now rnd t f d =
     (if t = [] \<or> \<not> list_all is_id_char t then Inl (Error ''Invalid tenant ID format'' None)
      else (case sanitizeFilename f of
              None \<Rightarrow> Inl (Error ''Invalid filename'' None)
            | Some sf \<Rightarrow>
                if sf = [] then Inl (Error ''Invalid filename'' None)
                else Inr (''tenants/'' @ t @ ''/documents/raw/'' @
                       (case d of None \<Rightarrow> ''temp'' | Some x \<Rightarrow> if x = [] then ''temp'' else x) @
                       ''/'' @ generateUniqueFilename path now rnd sf)))"
  by (auto simp: generateSecureObjectKey_def Let_def split: option.splits)

lemmas upload_eval = generateSecureObjectKey_def sanitizeFilename_def generateUniqueFilename_def
        name_path_def name_extname_def name_basename_def toString_hex_def hex_byte_def hex_digit_def
        decimal.simps digit_char_def is_id_char_def is_alnum_def is_basename_char_def
        is_extension_char_def

section \<open>The claims\<close>

subsection \<open>C1: cross-tenant isolation\<close>

text \<open>
  Claim C1 says that a key whose extracted tenant is \<open>A\<close> never validates for any other
  tenant identifier \<open>B\<close>. The guard sanitizes before it compares, so the statement fails
  in two ways: a \<open>B\<close> that differs from \<open>A\<close> only in characters the tenant sanitizer
  strips validates \<open>A\<close>'s keys, and so does a \<open>B\<close> that equals what is left of the
  key's tenant segment once the key sanitizer has removed a control character from it.
\<close>

theorem cross_tenant_isolation_counterexample:
  "extractTenantId ''tenants/t_1/documents/raw/d/f'' = Some ''t_1'' \<and> ''t_1'' \<noteq> ''t_1!'' \<and>
   validateS3Key ''tenants/t_1/documents/raw/d/f'' ''t_1!'' \<and>
   extractTenantId (''tenants/t'' @ [CHR 0x01] @ ''1/documents/raw/d/f'') =
     Some [CHR ''t'', CHR 0x01, CHR ''1''] \<and>
   [CHR ''t'', CHR 0x01, CHR ''1''] \<noteq> ''t1'' \<and>
   validateS3Key (''tenants/t'' @ [CHR 0x01] @ ''1/documents/raw/d/f'') ''t1''"
  by (simp add: guard_defs)

text \<open>
  Claim C1, amended: let \<open>A\<close> be a well-formed tenant identifier (the tenant sanitizer
  leaves it unchanged: it is non-empty and made of letters, digits, hyphens and
  underscores) and let \<open>B\<close> be any string whose sanitized form is not \<open>A\<close>, in particular
  any well-formed \<open>B \<noteq> A\<close>. Then no key \<open>k\<close> with \<open>extractTenantId k = A\<close> validates
  for \<open>B\<close>.
\<close>

theorem cross_tenant_isolation:
  assumes "extractTenantId k = Some a" and "sanitizeTenantId a = Some a"
    and "sanitizeTenantId b \<noteq> Some a"
  shows "validateS3Key k b = False"
  using isolation [OF assms] by simp

theorem cross_tenant_isolation_witness:
  "extractTenantId ''tenants/t_123/documents/raw/doc_456/report.pdf'' = Some ''t_123'' \<and>
   sanitizeTenantId ''t_123'' = Some ''t_123'' \<and> sanitizeTenantId ''t_456'' \<noteq> Some ''t_123'' \<and>
   validateS3Key ''tenants/t_123/documents/raw/doc_456/report.pdf'' ''t_456'' = False"
proof -
  have 1: "extractTenantId ''tenants/t_123/documents/raw/doc_456/report.pdf'' = Some ''t_123''"
    by (simp add: extractTenantId_def)
  have 2: "sanitizeTenantId ''t_123'' = Some ''t_123''"
    by (simp add: sanitizeTenantId_def is_id_char_def is_alnum_def)
  have 3: "sanitizeTenantId ''t_456'' \<noteq> Some ''t_123''"
    by (simp add: sanitizeTenantId_def is_id_char_def is_alnum_def)
  from cross_tenant_isolation [OF 1 2 3] 1 2 3 show ?thesis by simp
qed

subsection \<open>C2: building a key and validating it\<close>



subsection \<open>C3: the deletion workflow aborts before it deletes\<close>

text \<open>
  Claim C3: whenever the listing of the tenant's objects returns keys whose number changes
  under the filter by tenant validity, the deletion workflow ends with an error and the
  trace of the run holds no bulk-delete call: no object is deleted. When the run reaches
  the filter, that is when its safety checks pass, the error is \<open>ForeignObjectsDetected\<close>
  (the message \<^verbatim>\<open>Invalid objects found in tenant prefix\<close>).
\<close>

theorem deletion_aborts_before_delete:
  assumes "listTenantObjects env tenantId = Some (lev, Inr listed)"
    and "length (filterTenantS3Keys listed tenantId) \<noteq> length listed"
  shows "(safety_checks_pass env tenantId force \<longrightarrow>
            deleteTenantS3Data env tenantId force = Some (lev, Inl ForeignObjectsDetected)) \<and>
         (\<exists>ev e. deleteTenantS3Data env tenantId force = Some (ev, Inl e) \<and> delete_calls ev = [])"
proof (cases "safety_checks_pass env tenantId force")
  case True
  from assms(2) have ne: "listed \<noteq> []" by (auto simp: filterTenantS3Keys_def)
  from True obtain n where c: "sanitizeTenantId tenantId \<noteq> None"
    "tenant_findUnique env tenantId = Inr True" "user_count_active env tenantId = Inr n"
    "\<not> (n > 0 \<and> \<not> force)"
    by (auto simp: safety_checks_pass_def split: sum.splits)
  have "deleteTenantS3Data env tenantId force = Some (lev, Inl ForeignObjectsDetected)"
    using c assms ne
    by (simp add: deleteTenantS3Data_def ForeignObjectsDetected_def Let_def)
  with listTenantObjects_effects [OF assms(1)] show ?thesis by simp
next
  case False
  from deleteTenantS3Data_checks_fail [OF False] False show ?thesis by auto
qed

theorem deletion_aborts_before_delete_witness:
  "safety_checks_pass (bucket_env [''tenants/t_9/documents/raw/d/f'', ''tenants/t_9/junk'']) ''t_9'' False \<and>
   listTenantObjects (bucket_env [''tenants/t_9/documents/raw/d/f'', ''tenants/t_9/junk'']) ''t_9'' =
     Some ([S3ListObjects ''tenants/t_9/'' None],
           Inr [''tenants/t_9/documents/raw/d/f'', ''tenants/t_9/junk'']) \<and>
   filterTenantS3Keys [''tenants/t_9/documents/raw/d/f'', ''tenants/t_9/junk''] ''t_9'' =
     [''tenants/t_9/documents/raw/d/f''] \<and>
   deleteTenantS3Data (bucket_env [''tenants/t_9/documents/raw/d/f'', ''tenants/t_9/junk'']) ''t_9'' False =
     Some ([S3ListObjects ''tenants/t_9/'' None], Inl ForeignObjectsDetected)"
proof -
  let ?keys = "[''tenants/t_9/documents/raw/d/f'', ''tenants/t_9/junk'']"
  have 1: "safety_checks_pass (bucket_env ?keys) ''t_9'' False"
    by (simp add: safety_checks_bucket sanitizeTenantId_def is_id_char_def is_alnum_def)
  have 2: "listTenantObjects (bucket_env ?keys) ''t_9'' =
     Some ([S3ListObjects ''tenants/t_9/'' None], Inr ?keys)"
    using listTenantObjects_bucket [of ?keys "''t_9''"] by simp
  have 3: "filterTenantS3Keys ?keys ''t_9'' = [''tenants/t_9/documents/raw/d/f'']"
    by (simp add: filterTenantS3Keys_def validateS3Key_def validateTenantOwnership_def
        validateS3KeyStructure_def sanitizeS3Key_def sanitizeTenantId_def is_control_def
        is_id_char_def is_alnum_def)
  then have 4: "length (filterTenantS3Keys ?keys ''t_9'') \<noteq> length ?keys" by simp
  note conjunct1 [OF deletion_aborts_before_delete [OF 2 4], rule_format, OF 1]
  with 1 2 3 show ?thesis by simp
qed

subsection \<open>C4: ingestion skips a key that fails the guard\<close>

text \<open>
  Claim C4: for every key and tenant for which the guard's validation fails,
  \<open>processDocument\<close> returns \<^verbatim>\<open>false\<close>, throws nothing, and issues no call at all: no
  fetch from the object store, no write to the document table or to the vector store.
\<close>

theorem processDocument_skips_invalid_key:
  assumes "\<not> validateS3Key s3Key tenantId"
  shows "processDocument env s3Key tenantId documentId = ([], Inr False)"
  using assms by (simp add: processDocument_def processDocument_try_def)

theorem processDocument_skips_invalid_key_witness:
  "\<not> validateS3Key ''tenants/t_2/documents/raw/doc_x/f.pdf'' ''t_1'' \<and>
   processDocument example_ingestion_env ''tenants/t_2/documents/raw/doc_x/f.pdf'' ''t_1'' ''doc_x'' =
     ([], Inr False)"
proof -
  have 1: "\<not> validateS3Key ''tenants/t_2/documents/raw/doc_x/f.pdf'' ''t_1''"
    by (simp add: guard_defs)
  from processDocument_skips_invalid_key [OF 1] 1 show ?thesis by simp
qed

subsection \<open>C5: a missing and a foreign document are told apart by nothing\<close>

text \<open>
  Claim C5: when the document table holds no document with the requested identifier that
  belongs to the requesting tenant (the identifier is unknown, or every document that
  carries it belongs to another tenant), the download request fails with the error
  \<open>NotFoundOrForbidden\<close> (the message \<^verbatim>\<open>Document not found or access denied\<close>), and its
  outcome is the outcome of the same request on the table without any document of that
  identifier.
\<close>

theorem download_missing_or_foreign_same_error:
  assumes "\<forall>d\<in>set db. doc_id d = documentId \<longrightarrow> doc_tenantId d \<noteq> userTenantId"
  shows "generatePresignedDownloadUrl sign db documentId userId userTenantId userRoles =
           Inl NotFoundOrForbidden \<and>
         generatePresignedDownloadUrl sign db documentId userId userTenantId userRoles =
           generatePresignedDownloadUrl sign (filter (\<lambda>d. doc_id d \<noteq> documentId) db)
             documentId userId userTenantId userRoles"
proof -
  have "\<forall>d\<in>set (filter (\<lambda>d. doc_id d \<noteq> documentId) db).
          doc_id d = documentId \<longrightarrow> doc_tenantId d \<noteq> userTenantId" by simp
  from find_foreign [OF assms] find_foreign [OF this] show ?thesis
    by (simp add: generatePresignedDownloadUrl_def NotFoundOrForbidden_def)
qed

theorem download_missing_or_foreign_same_error_witness:
  "generatePresignedDownloadUrl example_getSignedUrl example_documents
     ''doc_1'' ''user_7'' ''t_2'' [''ADMIN''] = Inl NotFoundOrForbidden \<and>
   filter (\<lambda>d. doc_id d \<noteq> ''doc_1'') example_documents = [] \<and>
   generatePresignedDownloadUrl example_getSignedUrl []
     ''doc_1'' ''user_7'' ''t_2'' [''ADMIN''] = Inl NotFoundOrForbidden \<and>
   generatePresignedDownloadUrl example_getSignedUrl example_documents
     ''doc_1'' ''user_7'' ''t_1'' [''ADMIN''] =
     Inr \<lparr>downloadUrl = ''https://bucket.example/tenants/t_1/documents/raw/doc_1/report.pdf'',
          dl_documentId = ''doc_1'', fileName = ''report.pdf'', dl_mimeType = ''application/pdf''\<rparr>"
proof -
  have 1: "\<forall>d\<in>set example_documents. doc_id d = ''doc_1'' \<longrightarrow> doc_tenantId d \<noteq> ''t_2''"
    by (simp add: example_documents_def)
  have 2: "filter (\<lambda>d. doc_id d \<noteq> ''doc_1'') example_documents = []"
    by (simp add: example_documents_def)
  have 3: "generatePresignedDownloadUrl example_getSignedUrl example_documents
     ''doc_1'' ''user_7'' ''t_1'' [''ADMIN''] =
     Inr \<lparr>downloadUrl = ''https://bucket.example/tenants/t_1/documents/raw/doc_1/report.pdf'',
          dl_documentId = ''doc_1'', fileName = ''report.pdf'', dl_mimeType = ''application/pdf''\<rparr>"
    by code_simp
  from download_missing_or_foreign_same_error [OF 1, of example_getSignedUrl "''user_7''" "[''ADMIN'']"]
  have a: "generatePresignedDownloadUrl example_getSignedUrl example_documents
     ''doc_1'' ''user_7'' ''t_2'' [''ADMIN''] = Inl NotFoundOrForbidden"
    and b: "generatePresignedDownloadUrl example_getSignedUrl example_documents
     ''doc_1'' ''user_7'' ''t_2'' [''ADMIN''] =
     generatePresignedDownloadUrl example_getSignedUrl
       (filter (\<lambda>d. doc_id d \<noteq> ''doc_1'') example_documents)
       ''doc_1'' ''user_7'' ''t_2'' [''ADMIN'']"
    by blast+
  from a b have c: "generatePresignedDownloadUrl example_getSignedUrl []
     ''doc_1'' ''user_7'' ''t_2'' [''ADMIN''] = Inl NotFoundOrForbidden"
    unfolding 2 by simp
  from a 2 c 3 show ?thesis by blast
qed

subsection \<open>C6: the upload key\<close>

text \<open>
  Claim C6 says that the upload service builds its key with the key codec and validates
  it with the guard at once, failing with \<open>InvalidKeyGenerated\<close> when the key does not
  validate. The upload service calls neither: it rejects a tenant identifier with a
  character outside \<^verbatim>\<open>[a-zA-Z0-9_-]\<close> before it builds anything, where the codec would
  strip the character and the guard would accept the key.
\<close>

theorem upload_key_revalidation_counterexample:
  "generateSecureObjectKey name_path 1767225600000 [1, 2, 3, 4, 5, 6, 7, 8] ''tenant 1''
     ''report.pdf'' (Some ''doc_1'') = Inl (Error ''Invalid tenant ID format'' None) \<and>
   spec_generateKey ''tenant 1'' ''doc_1'' ''report.pdf'' =
     Inr ''tenants/tenant1/documents/raw/doc_1/report.pdf''"
  by (simp add: generateSecureObjectKey_def spec_generateKey_def guard_defs)

text \<open>
  Claim C6, amended: key generation in the upload service fails with
  \<^verbatim>\<open>Invalid tenant ID format\<close> exactly when the tenant identifier is empty or has a
  character outside \<^verbatim>\<open>[a-zA-Z0-9_-]\<close>; otherwise it fails with \<^verbatim>\<open>Invalid filename\<close>
  exactly when the file name is empty or nothing is left of it after sanitization;
  otherwise it returns the key
  \<open>tenants/{tenantId}/documents/raw/{documentId or temp}/{uniqueFilename}\<close>, which it
  assembles itself. It never fails with \<open>InvalidKeyGenerated\<close>: it has no step that
  validates the key again. Every key it returns validates for the tenant under the guard,
  and the key of every upload credential is such a key: a key that does not validate is
  never returned.
\<close>

theorem upload_key_always_validates:
  "(tenantId = [] \<or> \<not> list_all is_id_char tenantId \<longrightarrow>
      generateSecureObjectKey path now rnd tenantId originalFilename documentId =
        Inl (Error ''Invalid tenant ID format'' None)) \<and>
   (tenantId \<noteq> [] \<and> list_all is_id_char tenantId \<and>
    (sanitizeFilename originalFilename = None \<or> sanitizeFilename originalFilename = Some []) \<longrightarrow>
      generateSecureObjectKey path now rnd tenantId originalFilename documentId =
        Inl (Error ''Invalid filename'' None)) \<and>
   (\<forall>sanitizedFilename.
      tenantId \<noteq> [] \<and> list_all is_id_char tenantId \<and>
      sanitizeFilename originalFilename = Some sanitizedFilename \<and> sanitizedFilename \<noteq> [] \<longrightarrow>
      generateSecureObjectKey path now rnd tenantId originalFilename documentId =
        Inr (''tenants/'' @ tenantId @ ''/documents/raw/'' @
             (case documentId of None \<Rightarrow> ''temp'' | Some d \<Rightarrow> if d = [] then ''temp'' else d) @
             ''/'' @ generateUniqueFilename path now rnd sanitizedFilename)) \<and>
   generateSecureObjectKey path now rnd tenantId originalFilename documentId \<noteq>
     Inl InvalidKeyGenerated \<and>
   (\<forall>key. generateSecureObjectKey path now rnd tenantId originalFilename documentId = Inr key \<longrightarrow>
      validateS3Key key tenantId) \<and>
   (\<forall>u. generatePresignedUploadUrl env now rnd tenantId originalFilename mimeType fileSize
          documentId = Inr u \<longrightarrow>
        generateSecureObjectKey (node_path env) now rnd tenantId originalFilename documentId =
          Inr (url_objectKey u) \<and>
        validateS3Key (url_objectKey u) tenantId)"
proof (intro conjI allI impI)
  assume "tenantId = [] \<or> \<not> list_all is_id_char tenantId"
  then show "generateSecureObjectKey path now rnd tenantId originalFilename documentId =
        Inl (Error ''Invalid tenant ID format'' None)"
    by (simp add: generateSecureObjectKey_cases)
next
  assume "tenantId \<noteq> [] \<and> list_all is_id_char tenantId \<and>
    (sanitizeFilename originalFilename = None \<or> sanitizeFilename originalFilename = Some [])"
  then show "generateSecureObjectKey path now rnd tenantId originalFilename documentId =
        Inl (Error ''Invalid filename'' None)"
    by (auto simp: generateSecureObjectKey_cases)
next
  fix sanitizedFilename
  assume "tenantId \<noteq> [] \<and> list_all is_id_char tenantId \<and>
      sanitizeFilename originalFilename = Some sanitizedFilename \<and> sanitizedFilename \<noteq> []"
  then show "generateSecureObjectKey path now rnd tenantId originalFilename documentId =
        Inr (''tenants/'' @ tenantId @ ''/documents/raw/'' @
             (case documentId of None \<Rightarrow> ''temp'' | Some d \<Rightarrow> if d = [] then ''temp'' else d) @
             ''/'' @ generateUniqueFilename path now rnd sanitizedFilename)"
    by (simp add: generateSecureObjectKey_cases)
next
  show "generateSecureObjectKey path now rnd tenantId originalFilename documentId \<noteq>
     Inl InvalidKeyGenerated"
    by (auto simp: generateSecureObjectKey_cases InvalidKeyGenerated_def split: option.splits)
next
  fix key
  assume "generateSecureObjectKey path now rnd tenantId originalFilename documentId = Inr key"
  then show "validateS3Key key tenantId" by (rule generateSecureObjectKey_validates)
next
  fix u
  assume u: "generatePresignedUploadUrl env now rnd tenantId originalFilename mimeType fileSize
          documentId = Inr u"
  from generatePresignedUploadUrl_key [OF u]
  show "generateSecureObjectKey (node_path env) now rnd tenantId originalFilename documentId =
          Inr (url_objectKey u)" .
  from generateSecureObjectKey_validates [OF generatePresignedUploadUrl_key [OF u]]
  show "validateS3Key (url_objectKey u) tenantId" .
qed

theorem upload_key_always_validates_witness:
  "generateSecureObjectKey name_path 1767225600000 [1, 2, 3, 4, 5, 6, 7, 8] ''t/1''
     ''report.pdf'' None = Inl (Error ''Invalid tenant ID format'' None) \<and>
   sanitizeFilename ''../'' = Some [] \<and>
   generateSecureObjectKey name_path 1767225600000 [1, 2, 3, 4, 5, 6, 7, 8] ''t_1''
     ''../'' None = Inl (Error ''Invalid filename'' None) \<and>
   sanitizeFilename ''../../secret.pdf'' = Some ''secret.pdf'' \<and>
   generateSecureObjectKey name_path 1767225600000 [1, 2, 3, 4, 5, 6, 7, 8] ''t_1''
     ''../../secret.pdf'' (Some ''doc_1'') =
     Inr ''tenants/t_1/documents/raw/doc_1/secret-1767225600000-0102030405060708.pdf'' \<and>
   validateS3Key ''tenants/t_1/documents/raw/doc_1/secret-1767225600000-0102030405060708.pdf'' ''t_1'' \<and>
   generatePresignedUploadUrl example_upload_env 1767225600000 [1, 2, 3, 4, 5, 6, 7, 8] ''t_1''
     ''../../secret.pdf'' ''application/pdf'' 2048 None =
     Inr \<lparr>url_presignedUrl =
            ''https://bucket.example/tenants/t_1/documents/raw/temp/secret-1767225600000-0102030405060708.pdf'',
          url_objectKey = ''tenants/t_1/documents/raw/temp/secret-1767225600000-0102030405060708.pdf'',
          url_filename = ''../../secret.pdf''\<rparr> \<and>
   validateS3Key ''tenants/t_1/documents/raw/temp/secret-1767225600000-0102030405060708.pdf'' ''t_1''"
proof -
  let ?now = "1767225600000 :: nat" and ?rnd = "[1, 2, 3, 4, 5, 6, 7, 8] :: 8 word list"
  have t1: "''t/1'' = [] \<or> \<not> list_all is_id_char ''t/1''"
    by (simp add: is_id_char_def is_alnum_def)
  note a = conjunct1 [OF upload_key_always_validates [of "''t/1''" name_path ?now ?rnd "''report.pdf''" None],
      rule_format, OF t1]
  have t2: "''t_1'' \<noteq> [] \<and> list_all is_id_char ''t_1''"
    by (simp add: is_id_char_def is_alnum_def)
  have f2: "sanitizeFilename ''../'' = Some []" by (simp add: sanitizeFilename_def)
  note b = conjunct1 [OF conjunct2 [OF upload_key_always_validates [of "''t_1''" name_path ?now ?rnd "''../''" None]],
      rule_format]
  from t2 f2 have b': "generateSecureObjectKey name_path ?now ?rnd ''t_1'' ''../'' None =
      Inl (Error ''Invalid filename'' None)"
    by (intro b) simp
  have f3: "sanitizeFilename ''../../secret.pdf'' = Some ''secret.pdf''"
    by (simp add: sanitizeFilename_def is_basename_char_def is_extension_char_def is_alnum_def)
  note c = conjunct1 [OF conjunct2 [OF conjunct2
      [OF upload_key_always_validates [of "''t_1''" name_path ?now ?rnd "''../../secret.pdf''" "Some ''doc_1''"]]],
      rule_format, of "''secret.pdf''"]
  from t2 f3 have "generateSecureObjectKey name_path ?now ?rnd ''t_1'' ''../../secret.pdf''
      (Some ''doc_1'') =
      Inr (''tenants/'' @ ''t_1'' @ ''/documents/raw/'' @
             (case Some ''doc_1'' of None \<Rightarrow> ''temp'' | Some d \<Rightarrow> if d = [] then ''temp'' else d) @
             ''/'' @ generateUniqueFilename name_path ?now ?rnd ''secret.pdf'')"
    by (intro c) simp
  then have c': "generateSecureObjectKey name_path ?now ?rnd ''t_1'' ''../../secret.pdf''
      (Some ''doc_1'') =
      Inr ''tenants/t_1/documents/raw/doc_1/secret-1767225600000-0102030405060708.pdf''"
    by (simp add: upload_eval)
  note d = conjunct1 [OF conjunct2 [OF conjunct2 [OF conjunct2 [OF conjunct2
      [OF upload_key_always_validates [of "''t_1''" name_path ?now ?rnd "''../../secret.pdf''" "Some ''doc_1''"]]]]],
      rule_format, OF c']
  have e0: "generatePresignedUploadUrl example_upload_env ?now ?rnd ''t_1''
     ''../../secret.pdf'' ''application/pdf'' 2048 None =
     Inr \<lparr>url_presignedUrl =
            ''https://bucket.example/tenants/t_1/documents/raw/temp/secret-1767225600000-0102030405060708.pdf'',
          url_objectKey = ''tenants/t_1/documents/raw/temp/secret-1767225600000-0102030405060708.pdf'',
          url_filename = ''../../secret.pdf''\<rparr>"
    by (simp add: generatePresignedUploadUrl_def example_upload_env_def example_getSignedUrl_def
        validateFileType_def validateFileSize_def trim_def is_space_def toLowerCase_def
        lower_char_def mimeToExtension_def upload_eval)
  note e = conjunct2 [OF conjunct2 [OF conjunct2 [OF conjunct2 [OF conjunct2
      [OF upload_key_always_validates [of "''t_1''" _ ?now ?rnd "''../../secret.pdf''" None example_upload_env
          "''application/pdf''" 2048]]]]],
      rule_format, OF e0]
  from e have e': "validateS3Key
      ''tenants/t_1/documents/raw/temp/secret-1767225600000-0102030405060708.pdf'' ''t_1''"
    by simp
  from a b' f2 f3 c' d e0 e' show ?thesis by simp
qed

subsection \<open>C7: the audit entry of the deletion workflow\<close>

text \<open>
  Claim C7 says that every run of the deletion workflow writes exactly one audit-log
  entry, whatever its outcome. The run that finds no object returns before the audit
  call: it completes with \<open>deletedCount = 0\<close> and without error, and writes no entry.
\<close>

theorem deletion_audit_counterexample:
  "deleteTenantS3Data (bucket_env []) ''t_9'' False =
     Some ([S3ListObjects ''tenants/t_9/'' None],
           Inr \<lparr>deletedCount = 0, res_requestedDeletionCount = None, res_tenantId = ''t_9''\<rparr>) \<and>
   audit_writes [S3ListObjects ''tenants/t_9/'' None] = []"
proof -
  have 1: "safety_checks_pass (bucket_env []) ''t_9'' False"
    by (simp add: safety_checks_bucket sanitizeTenantId_def is_id_char_def is_alnum_def)
  have 2: "listTenantObjects (bucket_env []) ''t_9'' = Some ([S3ListObjects ''tenants/t_9/'' None], Inr [])"
    using listTenantObjects_bucket [of "[]" "''t_9''"] by simp
  from deleteTenantS3Data_zero_objects [OF 1 2] show ?thesis by simp
qed

text \<open>
  Claim C7, amended: a run of the deletion workflow issues exactly one audit-log write,
  which records the requested count, the deleted count and the timestamp, when it returns
  after its delete batches; it issues none when it finds zero objects, and none when it
  ends with an error. The run that passes the safety checks and finds zero objects
  completes with \<open>deletedCount = 0\<close> and no error.
\<close>

theorem deletion_audit_entries:
  "(\<forall>ev r. deleteTenantS3Data env tenantId force = Some (ev, r) \<longrightarrow>
      audit_writes ev =
        (case r of
           Inl e \<Rightarrow> []
         | Inr res \<Rightarrow>
             (case res_requestedDeletionCount res of
                None \<Rightarrow> []
              | Some requested \<Rightarrow>
                  [\<lparr>action = ''TENANT_S3_DATA_DELETED'', entityType = ''tenant'',
                    entityId = tenantId, actorType = ''SYSTEM'', actorId = ''SYSTEM'',
                    deletedObjectCount = deletedCount res,
                    requestedDeletionCount = requested,
                    deletionTimestamp = toISOString_now env,
                    audit_tenantId = tenantId\<rparr>]))) \<and>
   (\<forall>ev. safety_checks_pass env tenantId force \<and>
      listTenantObjects env tenantId = Some (ev, Inr []) \<longrightarrow>
      deleteTenantS3Data env tenantId force =
        Some (ev, Inr \<lparr>deletedCount = 0, res_requestedDeletionCount = None,
                       res_tenantId = tenantId\<rparr>))"
  using deleteTenantS3Data_audit deleteTenantS3Data_zero_objects by blast

theorem deletion_audit_entries_witness:
  "deleteTenantS3Data
     (bucket_env [''tenants/t_9/documents/raw/d/f'', ''tenants/t_9/documents/raw/d/g''])
     ''t_9'' False =
     Some ([S3ListObjects ''tenants/t_9/'' None,
            S3DeleteObjects [''tenants/t_9/documents/raw/d/f'', ''tenants/t_9/documents/raw/d/g''],
            AuditLogCreate
             \<lparr>action = ''TENANT_S3_DATA_DELETED'', entityType = ''tenant'',
              entityId = ''t_9'', actorType = ''SYSTEM'', actorId = ''SYSTEM'',
              deletedObjectCount = 2, requestedDeletionCount = 2,
              deletionTimestamp = ''2026-01-01T00:00:00.000Z'',
              audit_tenantId = ''t_9''\<rparr>],
           Inr \<lparr>deletedCount = 2, res_requestedDeletionCount = Some 2, res_tenantId = ''t_9''\<rparr>) \<and>
   audit_writes
     [S3ListObjects ''tenants/t_9/'' None,
      S3DeleteObjects [''tenants/t_9/documents/raw/d/f'', ''tenants/t_9/documents/raw/d/g''],
      AuditLogCreate
       \<lparr>action = ''TENANT_S3_DATA_DELETED'', entityType = ''tenant'',
        entityId = ''t_9'', actorType = ''SYSTEM'', actorId = ''SYSTEM'',
        deletedObjectCount = 2, requestedDeletionCount = 2,
        deletionTimestamp = ''2026-01-01T00:00:00.000Z'',
        audit_tenantId = ''t_9''\<rparr>] =
     [\<lparr>action = ''TENANT_S3_DATA_DELETED'', entityType = ''tenant'',
       entityId = ''t_9'', actorType = ''SYSTEM'', actorId = ''SYSTEM'',
       deletedObjectCount = 2, requestedDeletionCount = 2,
       deletionTimestamp = ''2026-01-01T00:00:00.000Z'',
       audit_tenantId = ''t_9''\<rparr>] \<and>
   safety_checks_pass (bucket_env []) ''t_9'' False \<and>
   listTenantObjects (bucket_env []) ''t_9'' = Some ([S3ListObjects ''tenants/t_9/'' None], Inr []) \<and>
   deleteTenantS3Data (bucket_env []) ''t_9'' False =
     Some ([S3ListObjects ''tenants/t_9/'' None],
           Inr \<lparr>deletedCount = 0, res_requestedDeletionCount = None, res_tenantId = ''t_9''\<rparr>)"
proof -
  let ?keys = "[''tenants/t_9/documents/raw/d/f'', ''tenants/t_9/documents/raw/d/g'']"
  let ?entry = "\<lparr>action = ''TENANT_S3_DATA_DELETED'', entityType = ''tenant'',
              entityId = ''t_9'', actorType = ''SYSTEM'', actorId = ''SYSTEM'',
              deletedObjectCount = 2, requestedDeletionCount = 2,
              deletionTimestamp = ''2026-01-01T00:00:00.000Z'',
              audit_tenantId = ''t_9''\<rparr>"
  let ?ev = "[S3ListObjects ''tenants/t_9/'' None, S3DeleteObjects ?keys, AuditLogCreate ?entry]"
  let ?res = "\<lparr>deletedCount = 2, res_requestedDeletionCount = Some 2, res_tenantId = ''t_9''\<rparr>"
  have run: "deleteTenantS3Data (bucket_env ?keys) ''t_9'' False = Some (?ev, Inr ?res)"
    by code_simp
  have now: "toISOString_now (bucket_env ?keys) = ''2026-01-01T00:00:00.000Z''"
    by (simp add: bucket_env_def)
  note conjunct1 [OF deletion_audit_entries [of "bucket_env ?keys" "''t_9''" False], rule_format, OF run]
  then have audit: "audit_writes ?ev = [?entry]" by (simp add: now)
  have 1: "safety_checks_pass (bucket_env []) ''t_9'' False"
    by (simp add: safety_checks_bucket sanitizeTenantId_def is_id_char_def is_alnum_def)
  have 2: "listTenantObjects (bucket_env []) ''t_9'' = Some ([S3ListObjects ''tenants/t_9/'' None], Inr [])"
    using listTenantObjects_bucket [of "[]" "''t_9''"] by simp
  note zero = conjunct2 [OF deletion_audit_entries [of "bucket_env []" "''t_9''" False], rule_format,
      OF conjI [OF 1 2]]
  from run audit 1 2 zero show ?thesis by blast
qed

subsection \<open>C8: what the key sanitizer returns\<close>

text \<open>
  Claim C8 says that the key sanitizer never returns \<^verbatim>\<open>null\<close>. It does, on the empty
  string, as its documentation announces (\<^verbatim>\<open>@returns {string|null}\<close>).
\<close>

theorem sanitizeS3Key_total_counterexample: "sanitizeS3Key '''' = None"
  by (simp add: sanitizeS3Key_def)

text \<open>
  Claim C8, amended: on every non-empty string the key sanitizer returns a string, which
  may be empty, and never \<^verbatim>\<open>null\<close>; on the empty string it returns \<^verbatim>\<open>null\<close>.
\<close>

theorem sanitizeS3Key_total_on_nonempty:
  "(k \<noteq> [] \<longrightarrow> (\<exists>s. sanitizeS3Key k = Some s)) \<and> sanitizeS3Key [] = None"
  by (simp add: sanitizeS3Key_def Let_def)

theorem sanitizeS3Key_total_on_nonempty_witness:
  "''../'' \<noteq> [] \<and> (\<exists>s. sanitizeS3Key ''../'' = Some s) \<and> sanitizeS3Key ''../'' = Some []"
proof -
  have "''../'' \<noteq> []" by simp
  moreover from this sanitizeS3Key_total_on_nonempty [of "''../''"]
  have "\<exists>s. sanitizeS3Key ''../'' = Some s" by blast
  moreover have "sanitizeS3Key ''../'' = Some []" by (simp add: sanitizeS3Key_def is_control_def)
  ultimately show ?thesis by blast
qed

subsection \<open>C9: sanitizing a key twice\<close>

text \<open>
  Claim C9 says that the key sanitizer is idempotent. Each traversal sequence is removed
  in one pass, and what a removal joins is not scanned again, so the result can hold a
  traversal sequence that a second call removes: \<open>....//\<close> becomes \<open>../\<close> and then the
  empty string. And a key that is sanitized to the empty string is sanitized to
  \<^verbatim>\<open>null\<close> by the second call.
\<close>

theorem sanitizeS3Key_idempotent_counterexample:
  "sanitizeS3Key ''....//'' = Some ''../'' \<and> sanitizeS3Key_twice ''....//'' = Some '''' \<and>
   sanitizeS3Key_twice ''....//'' \<noteq> sanitizeS3Key ''....//'' \<and>
   sanitizeS3Key ''../'' = Some '''' \<and> sanitizeS3Key_twice ''../'' = None \<and>
   sanitizeS3Key_twice ''../'' \<noteq> sanitizeS3Key ''../''"
  by (simp add: sanitizeS3Key_twice_def sanitizeS3Key_def is_control_def)

text \<open>
  Claim C9, amended: for a non-empty key \<open>k\<close>, sanitizing twice gives the same as
  sanitizing once, \<open>sanitizeKey (sanitizeKey k) = sanitizeKey k\<close>, exactly when the
  sanitized form of \<open>k\<close> is non-empty and holds none of the four traversal sequences.
\<close>

theorem sanitizeS3Key_idempotent_on_clean_result:
  assumes "sanitizeS3Key k = Some s"
  shows "sanitizeS3Key_twice k = sanitizeS3Key k \<longleftrightarrow> s \<noteq> [] \<and> \<not> has_traversal s"
proof (cases "s = []")
  case True
  with assms show ?thesis by (simp add: sanitizeS3Key_twice_def sanitizeS3Key_def)
next
  case False
  from sanitizeS3Key_fixed_iff [OF False sanitizeS3Key_no_control [OF assms]] assms False
  show ?thesis by (simp add: sanitizeS3Key_twice_def)
qed

theorem sanitizeS3Key_idempotent_on_clean_result_witness:
  "sanitizeS3Key ''tenants/t_1/../documents/raw/x.pdf'' = Some ''tenants/t_1/documents/raw/x.pdf'' \<and>
   ''tenants/t_1/documents/raw/x.pdf'' \<noteq> [] \<and>
   \<not> has_traversal ''tenants/t_1/documents/raw/x.pdf'' \<and>
   sanitizeS3Key_twice ''tenants/t_1/../documents/raw/x.pdf'' =
     sanitizeS3Key ''tenants/t_1/../documents/raw/x.pdf''"
proof -
  have 1: "sanitizeS3Key ''tenants/t_1/../documents/raw/x.pdf'' =
      Some ''tenants/t_1/documents/raw/x.pdf''"
    by (simp add: sanitizeS3Key_def is_control_def)
  have 2: "''tenants/t_1/documents/raw/x.pdf'' \<noteq> []" by simp
  have 3: "\<not> has_traversal ''tenants/t_1/documents/raw/x.pdf''"
    by (simp add: has_traversal_def)
  from sanitizeS3Key_idempotent_on_clean_result [OF 1] 1 2 3 show ?thesis by simp
qed

subsection \<open>C10: the upload key without a document identifier\<close>

text \<open>
  Claim C10 says that two calls of the key generation with the same arguments return
  distinct keys. The key is a function of the arguments, the timestamp and the random
  bytes, and nothing else tells two calls apart: two calls that read the same timestamp
  and draw the same eight bytes return the same key.
\<close>

theorem distinct_keys_counterexample:
  "generateSecureObjectKey name_path 1767225600000 [1, 2, 3, 4, 5, 6, 7, 8] ''t_1'' ''report.pdf'' None =
     Inr ''tenants/t_1/documents/raw/temp/report-1767225600000-0102030405060708.pdf'' \<and>
   generateSecureObjectKey_twice name_path (1767225600000, [1, 2, 3, 4, 5, 6, 7, 8])
     (1767225600000, [1, 2, 3, 4, 5, 6, 7, 8]) ''t_1'' ''report.pdf'' None =
     (Inr ''tenants/t_1/documents/raw/temp/report-1767225600000-0102030405060708.pdf'',
      Inr ''tenants/t_1/documents/raw/temp/report-1767225600000-0102030405060708.pdf'')"
  by (simp add: generateSecureObjectKey_twice_def upload_eval)

text \<open>
  Claim C10, amended: when the upload service generates a key without a document
  identifier (omitted or \<^verbatim>\<open>null\<close>), the key is
  \<open>tenants/{tenantId}/documents/raw/temp/{uniqueFilename}\<close>, its fifth segment being the
  literal \<open>temp\<close>; and since the unique file name embeds the timestamp and the eight
  random bytes of the call, two calls with the same arguments return distinct keys
  exactly when their timestamps or their random bytes differ.
\<close>

theorem temp_segment_and_distinct_keys:
  assumes "generateSecureObjectKey_twice path (now, rnd) (now', rnd') tenantId originalFilename None =
      (Inr key, Inr key')"
    and "length rnd = 8" and "length rnd' = 8"
  shows "(\<exists>sanitizedFilename. sanitizeFilename originalFilename = Some sanitizedFilename \<and>
            key = ''tenants/'' @ tenantId @ ''/documents/raw/temp/'' @
                  generateUniqueFilename path now rnd sanitizedFilename) \<and>
         split_on CHR ''/'' key ! 4 = ''temp'' \<and>
         (key \<noteq> key' \<longleftrightarrow> now \<noteq> now' \<or> rnd \<noteq> rnd')"
proof -
  from assms(1) have k1: "generateSecureObjectKey path now rnd tenantId originalFilename None = Inr key"
    and k2: "generateSecureObjectKey path now' rnd' tenantId originalFilename None = Inr key'"
    by (simp_all add: generateSecureObjectKey_twice_def)
  from generateSecureObjectKey_Inr [OF k1] obtain sf where
    sf: "sanitizeFilename originalFilename = Some sf" and t: "list_all is_id_char tenantId"
    and key: "key = ''tenants/'' @ tenantId @ ''/documents/raw/temp/'' @
                generateUniqueFilename path now rnd sf" by auto
  from generateSecureObjectKey_Inr [OF k2] sf have
    key': "key' = ''tenants/'' @ tenantId @ ''/documents/raw/temp/'' @
                generateUniqueFilename path now' rnd' sf" by auto
  have ns: "CHR ''/'' \<notin> set tenantId" using t is_id_char_facts by (auto simp: list_all_iff)
  have "key = ''tenants'' @ CHR ''/'' # (tenantId @ CHR ''/'' # (''documents'' @ CHR ''/'' #
          (''raw'' @ CHR ''/'' # (''temp'' @ CHR ''/'' # generateUniqueFilename path now rnd sf))))"
    using key by simp
  then have "split_on CHR ''/'' key =
     ''tenants'' # tenantId # ''documents'' # ''raw'' # ''temp'' #
       split_on CHR ''/'' (generateUniqueFilename path now rnd sf)"
    using ns by (simp only: split_on_segment) (simp add: split_on_segment)
  then have seg: "split_on CHR ''/'' key ! 4 = ''temp''" by simp
  have "key = key' \<longleftrightarrow> now = now' \<and> rnd = rnd'"
  proof
    assume "key = key'"
    with key key' have "generateUniqueFilename path now rnd sf = generateUniqueFilename path now' rnd' sf"
      by simp
    from generateUniqueFilename_inj [OF this] assms(2,3) show "now = now' \<and> rnd = rnd'" by simp
  next
    assume "now = now' \<and> rnd = rnd'"
    with key key' show "key = key'" by simp
  qed
  then have "key \<noteq> key' \<longleftrightarrow> now \<noteq> now' \<or> rnd \<noteq> rnd'" by blast
  with sf key seg show ?thesis by blast
qed

theorem temp_segment_and_distinct_keys_witness:
  "generateSecureObjectKey_twice name_path (1767225600000, [1, 2, 3, 4, 5, 6, 7, 8])
     (1767225600000, [1, 2, 3, 4, 5, 6, 7, 9]) ''t_1'' ''../../secret.pdf'' None =
     (Inr ''tenants/t_1/documents/raw/temp/secret-1767225600000-0102030405060708.pdf'',
      Inr ''tenants/t_1/documents/raw/temp/secret-1767225600000-0102030405060709.pdf'') \<and>
   split_on CHR ''/'' ''tenants/t_1/documents/raw/temp/secret-1767225600000-0102030405060708.pdf'' ! 4 = ''temp'' \<and>
   ''tenants/t_1/documents/raw/temp/secret-1767225600000-0102030405060708.pdf'' \<noteq>
   ''tenants/t_1/documents/raw/temp/secret-1767225600000-0102030405060709.pdf''"
proof -
  have 1: "generateSecureObjectKey_twice name_path (1767225600000, [1, 2, 3, 4, 5, 6, 7, 8])
     (1767225600000, [1, 2, 3, 4, 5, 6, 7, 9]) ''t_1'' ''../../secret.pdf'' None =
     (Inr ''tenants/t_1/documents/raw/temp/secret-1767225600000-0102030405060708.pdf'',
      Inr ''tenants/t_1/documents/raw/temp/secret-1767225600000-0102030405060709.pdf'')"
    by (simp add: generateSecureObjectKey_twice_def upload_eval)
  have 2: "length [1, 2, 3, 4, 5, 6, 7, 8 :: 8 word] = 8" "length [1, 2, 3, 4, 5, 6, 7, 9 :: 8 word] = 8"
    by simp_all
  from temp_segment_and_distinct_keys [OF 1 2] 1 show ?thesis by simp
qed

end
